theory Spec2Isabelle
  imports Complex_Main
begin

section \<open>Table of contents for an existing PDF (create\_toc.py)\<close>

text \<open>
  The script reads the outline of a PDF with pypdf, renders a table of contents with
  fpdf2 and writes the table followed by the original pages. Both libraries are outside
  the repository. What the script does with them is modelled as follows.

  \<^item> Python floats are idealised as \<^typ>\<open>real\<close>, Python ints as \<^typ>\<open>int\<close>
    (nesting depths and page counters, which only count up from zero, as \<^typ>\<open>nat\<close>).
  \<^item> An FPDF object is a record of the attributes the script reads (\<open>w\<close>, the margins,
    the font settings, the cursor) together with the list of the calls the script has made
    on it, in order.
  \<^item> Font metrics and text layout belong to fpdf2. They are parameters, collected in an
    \<open>engine\<close>: the measured width of a string in the current font, and the place where
    a block of text ends up on the page. The cursor rules that the script relies on
    (\<open>set_x\<close>, \<open>ln\<close>, and the \<open>new_x\<close>/\<open>new_y\<close> arguments of \<open>multi_cell\<close>) follow the
    documentation of fpdf2.
  \<^item> The \<open>while\<close> loop that accumulates the dot leader has no bound in the source, so it
    is a partial function into \<open>option\<close>: \<open>None\<close> stands for a loop that never returns.
\<close>

subsection \<open>Python helpers\<close>

text \<open>\<open>str(n)\<close> for an int: decimal digits, with a minus sign for a negative number.\<close>

definition digit_char :: "nat \<Rightarrow> char" where
  "digit_char n = ''0123456789'' ! (n mod 10)"

fun str_nat :: "nat \<Rightarrow> string" where
  "str_nat n = (if n < 10 then [digit_char n] else str_nat (n div 10) @ [digit_char n])"

declare str_nat.simps [simp del]

definition str :: "int \<Rightarrow> string" where
  "str i = (if i < 0 then CHR ''-'' # str_nat (nat (- i)) else str_nat (nat i))"

text \<open>The slice \<open>xs[k:]\<close>: a negative \<open>k\<close> counts from the end of the list.\<close>

definition slice_from :: "'a list \<Rightarrow> int \<Rightarrow> 'a list" where
  "slice_from xs k =
     (if 0 \<le> k then drop (nat k) xs else drop (length xs - nat (- k)) xs)"

subsection \<open>Data model\<close>

text \<open>
  A bookmark is the dict \<open>{"depth": .., "title": .., "page": ..}\<close> built by
  \<open>extract_bookmarks\<close>; \<open>page\<close> is the zero-based page index that pypdf resolves.
  (pypdf answers \<open>None\<close> for a destination without a page; the model is about sources
  whose destinations resolve.)
\<close>

record bookmark =
  depth :: nat
  title :: string
  page :: int

text \<open>
  An entry of pypdf's outline is a \<open>Destination\<close>, a nested list of entries (the children
  of the entry before it), or something else, which \<open>extract_bookmarks\<close> ignores.
\<close>

datatype destination = Destination (dest_title: string) (dest_ref: nat)

datatype outline_item =
    Dest destination
  | Nested "outline_item list"
  | Other

text \<open>
  The \<open>PdfReader\<close> of the source document: its outline, its number of pages and
  \<open>get_destination_page_number\<close>.
\<close>

record reader =
  outline :: "outline_item list"
  num_pages :: nat
  get_destination_page_number :: "destination \<Rightarrow> int"

text \<open>\<open>TextStyle\<close>, with the arguments that \<open>TOC_TEXT_STYLES\<close> sets (\<open>b_margin\<close> defaults to 0).\<close>

record text_style =
  ts_font_family :: string
  ts_font_size_pt :: real
  ts_color :: "string option"
  ts_font_style :: string
  ts_b_margin :: real

datatype XPos = RIGHT | END | LMARGIN
datatype YPos = TOP | LAST | NEXT
datatype Align = Align_C | Align_J | Align_L | Align_R

text \<open>The arguments of one \<open>cell\<close> or \<open>multi_cell\<close> call.\<close>

record cell =
  cell_w :: real
  cell_h :: real
  cell_text :: string
  new_x :: XPos
  new_y :: YPos
  link :: "string option"
  align :: Align

text \<open>The calls the script makes on the FPDF object.\<close>

datatype call =
    AddPage
  | SetTitle string
  | UseTextStyle text_style
  | Cell cell
  | AddLink string
  | SetX real
  | Ln
  | MultiCell cell

text \<open>
  The FPDF object: scale factor \<open>k\<close>, page width \<open>w\<close>, margins, current font, cursor
  (\<open>x\<close>, \<open>y\<close>, \<open>page\<close>), height of the last cell, and the calls received so far.
\<close>

record fpdf =
  pdf_k :: real
  pdf_w :: real
  l_margin :: real
  r_margin :: real
  t_margin :: real
  c_margin :: real
  font_family :: string
  font_style :: string
  font_size_pt :: real
  text_color :: "string option"
  pdf_x :: real
  pdf_y :: real
  pdf_page :: nat
  lasth :: real
  calls :: "call list"

text \<open>
  Where fpdf2 puts a block of text: the page it ends on, the top of its first and of its
  last printed line, and the \<open>x\<close> at which the text of the last line ends.
\<close>

record placed =
  p_page :: nat
  p_top :: real
  p_last :: real
  p_end :: real

text \<open>
  The parts of fpdf2 that the script takes as given: the state of a new \<open>FPDF()\<close>, the
  measured width of a string in the current font, and the layout of a block of text
  (wrapping and page breaks included).
\<close>

record engine =
  new_fpdf :: fpdf
  string_width :: "fpdf \<Rightarrow> string \<Rightarrow> real"
  layout :: "fpdf \<Rightarrow> cell \<Rightarrow> placed"

subsection \<open>The fpdf2 calls used by the script\<close>

definition epw :: "fpdf \<Rightarrow> real" where
  "epw toc = pdf_w toc - l_margin toc - r_margin toc"

definition font_size :: "fpdf \<Rightarrow> real" where
  "font_size toc = font_size_pt toc / pdf_k toc"

definition log_call :: "call \<Rightarrow> fpdf \<Rightarrow> fpdf" where
  "log_call c toc = toc\<lparr>calls := calls toc @ [c]\<rparr>"

definition add_page :: "fpdf \<Rightarrow> fpdf" where
  "add_page toc =
     log_call AddPage
       (toc\<lparr>pdf_page := pdf_page toc + 1, pdf_x := l_margin toc, pdf_y := t_margin toc\<rparr>)"

definition page_no :: "fpdf \<Rightarrow> int" where
  "page_no toc = int (pdf_page toc)"

definition set_title :: "string \<Rightarrow> fpdf \<Rightarrow> fpdf" where
  "set_title s toc = log_call (SetTitle s) toc"

definition add_link :: "string \<Rightarrow> fpdf \<Rightarrow> fpdf" where
  "add_link name toc = log_call (AddLink name) toc"

definition get_x :: "fpdf \<Rightarrow> real" where
  "get_x toc = pdf_x toc"

text \<open>\<open>set_x\<close>: a negative argument is taken from the right edge of the page.\<close>

definition set_x :: "real \<Rightarrow> fpdf \<Rightarrow> fpdf" where
  "set_x v toc =
     log_call (SetX v) (toc\<lparr>pdf_x := (if 0 \<le> v then v else pdf_w toc + v)\<rparr>)"

text \<open>A line break: back to the left margin, down by the given height.\<close>

definition line_break :: "real \<Rightarrow> fpdf \<Rightarrow> fpdf" where
  "line_break h toc = toc\<lparr>pdf_x := l_margin toc, pdf_y := pdf_y toc + h\<rparr>"

text \<open>\<open>ln()\<close> without an argument goes down by the height of the last printed cell.\<close>

definition ln_pdf :: "fpdf \<Rightarrow> fpdf" where
  "ln_pdf toc = log_call Ln (line_break (lasth toc) toc)"

definition get_string_width :: "engine \<Rightarrow> fpdf \<Rightarrow> string \<Rightarrow> real" where
  "get_string_width E toc s = string_width E toc s"

text \<open>
  The cursor after a cell, from \<open>new_x\<close> and \<open>new_y\<close>: \<open>RIGHT\<close> is the right edge of the
  cell, \<open>END\<close> the end of the text, \<open>LMARGIN\<close> the left margin; \<open>TOP\<close> is the top of the
  first line, \<open>LAST\<close> the top of the last printed line, \<open>NEXT\<close> the top of the next line.
  A width of 0 extends the cell to the right margin.
\<close>

definition place_cell :: "engine \<Rightarrow> cell \<Rightarrow> fpdf \<Rightarrow> fpdf" where
  "place_cell E c toc =
     (let p = layout E toc c;
          width = (if cell_w c = 0 then pdf_w toc - r_margin toc - pdf_x toc else cell_w c)
      in toc\<lparr>pdf_page := p_page p,
              pdf_x := (case new_x c of
                          RIGHT \<Rightarrow> pdf_x toc + width
                        | END \<Rightarrow> p_end p
                        | LMARGIN \<Rightarrow> l_margin toc),
              pdf_y := (case new_y c of
                          TOP \<Rightarrow> p_top p
                        | LAST \<Rightarrow> p_last p
                        | NEXT \<Rightarrow> p_last p + cell_h c),
              lasth := cell_h c\<rparr>)"

definition cell_call :: "engine \<Rightarrow> cell \<Rightarrow> fpdf \<Rightarrow> fpdf" where
  "cell_call E c toc = log_call (Cell c) (place_cell E c toc)"

definition multi_cell :: "engine \<Rightarrow> cell \<Rightarrow> fpdf \<Rightarrow> fpdf" where
  "multi_cell E c toc = log_call (MultiCell c) (place_cell E c toc)"

text \<open>
  \<open>with toc.use_text_style(style)\<close>: on entry the font and colour of the style are
  selected; on exit the previous ones come back, and a style with a bottom margin ends
  with a line break of that height.
\<close>

definition use_text_style_enter :: "text_style \<Rightarrow> fpdf \<Rightarrow> fpdf" where
  "use_text_style_enter st toc =
     log_call (UseTextStyle st)
       (toc\<lparr>font_family := ts_font_family st,
            font_style := ts_font_style st,
            font_size_pt := ts_font_size_pt st,
            text_color := (case ts_color st of None \<Rightarrow> text_color toc | Some c \<Rightarrow> Some c)\<rparr>)"

definition use_text_style_exit :: "text_style \<Rightarrow> fpdf \<Rightarrow> fpdf \<Rightarrow> fpdf" where
  "use_text_style_exit st saved toc =
     (let toc = toc\<lparr>font_family := font_family saved,
                    font_style := font_style saved,
                    font_size_pt := font_size_pt saved,
                    text_color := text_color saved\<rparr>
      in if ts_b_margin st \<noteq> 0 then line_break (ts_b_margin st) toc else toc)"

subsection \<open>The class CreateTOC\<close>

text \<open>The attributes of the object: \<open>reader\<close>, \<open>bookmarks\<close>, \<open>toc_pages\<close>.\<close>

record create_toc_obj =
  reader_of :: reader
  bookmarks :: "bookmark list"
  toc_pages :: int

definition TOC_TEXT_STYLES :: "(string \<times> text_style) list" where
  "TOC_TEXT_STYLES =
     [(''title'', \<lparr>ts_font_family = ''Helvetica'', ts_font_size_pt = 18,
                   ts_color = Some ''#0000ff'', ts_font_style = ''B'', ts_b_margin = 18\<rparr>),
      (''depth_0'', \<lparr>ts_font_family = ''Helvetica'', ts_font_size_pt = 12,
                     ts_color = None, ts_font_style = ''B'', ts_b_margin = 0\<rparr>),
      (''default'', \<lparr>ts_font_family = ''Helvetica'', ts_font_size_pt = 12,
                     ts_color = None, ts_font_style = '''', ts_b_margin = 0\<rparr>)]"

text \<open>\<open>TOC_TEXT_STYLES[key]\<close>, for the keys that the class defines.\<close>

definition style_named :: "string \<Rightarrow> text_style" where
  "style_named key = the (map_of TOC_TEXT_STYLES key)"

text \<open>
  \<open>extract_bookmarks\<close> (lines 82 to 98): the outline flattened, depth first, in document
  order. \<open>get_text_style\<close> (lines 100 to 103): the style of the depth, or the default one.
\<close>

fun extract_bookmarks :: "reader \<Rightarrow> outline_item list \<Rightarrow> nat \<Rightarrow> bookmark list" where
  "extract_bookmarks rd [] d = []"
| "extract_bookmarks rd (Nested sub # rest) d =
     extract_bookmarks rd sub (d + 1) @ extract_bookmarks rd rest d"
| "extract_bookmarks rd (Dest item # rest) d =
     \<lparr>depth = d, title = dest_title item, page = get_destination_page_number rd item\<rparr>
       # extract_bookmarks rd rest d"
| "extract_bookmarks rd (Other # rest) d = extract_bookmarks rd rest d"

definition get_text_style :: "nat \<Rightarrow> text_style" where
  "get_text_style d =
     (case map_of TOC_TEXT_STYLES (''depth_'' @ str (int d)) of
        Some style \<Rightarrow> style
      | None \<Rightarrow> style_named ''default'')"

text \<open>
  The loop of lines 169 to 173, \<open>while get_string_width(in_between) + clearance_margin <
  in_between_space: in_between += "."\<close>, from any starting string.
\<close>

partial_function (option) fill_loop :: "(string \<Rightarrow> real) \<Rightarrow> real \<Rightarrow> real \<Rightarrow> string \<Rightarrow> string option"
  where
  "fill_loop width_of clearance_margin in_between_space in_between =
     (if width_of in_between + clearance_margin < in_between_space
      then fill_loop width_of clearance_margin in_between_space (in_between @ ''.'')
      else Some in_between)"

declare fill_loop.simps [code]

text \<open>
  \<open>render_toc_item\<close>, in the order of the source. First the link and the title (lines
  127 to 152, up to the first \<open>multi_cell\<close>), inside the text style of the row.
\<close>

definition item_page_number :: "create_toc_obj \<Rightarrow> bookmark \<Rightarrow> string" where
  "item_page_number self item = str (page item + toc_pages self + 1)"

definition link_name :: "bookmark \<Rightarrow> string" where
  "link_name item = ''dest'' @ str (page item)"

definition level_indent :: real where
  "level_indent = 7.5"

definition line_spacing :: real where
  "line_spacing = 1.5"

definition indent_of :: "bookmark \<Rightarrow> real" where
  "indent_of item = real (depth item) * level_indent"

definition title_cell :: "fpdf \<Rightarrow> bookmark \<Rightarrow> cell" where
  "title_cell toc item =
     \<lparr>cell_w = epw toc - indent_of item,
      cell_h = font_size toc * line_spacing,
      cell_text = title item,
      new_x = END, new_y = LAST,
      link = Some (''#'' @ link_name item),
      align = Align_J\<rparr>"

definition render_title :: "engine \<Rightarrow> fpdf \<Rightarrow> bookmark \<Rightarrow> fpdf" where
  "render_title E toc item =
     (let toc = add_link (link_name item) toc;
          toc = use_text_style_enter (get_text_style (depth item)) toc;
          toc = set_x (l_margin toc + indent_of item) toc
      in multi_cell E (title_cell toc item) toc)"

text \<open>
  Lines 154 to 166: the space between the title and the page number, with the line break
  taken when it is negative. The result is the FPDF object, \<open>current_x\<close> and
  \<open>in_between_space\<close>.
\<close>

definition clearance_margin :: "fpdf \<Rightarrow> real" where
  "clearance_margin toc = c_margin toc * 2"

definition page_label_length :: "engine \<Rightarrow> create_toc_obj \<Rightarrow> fpdf \<Rightarrow> bookmark \<Rightarrow> real" where
  "page_label_length E self toc item = get_string_width E toc (item_page_number self item)"

definition first_space :: "engine \<Rightarrow> create_toc_obj \<Rightarrow> fpdf \<Rightarrow> bookmark \<Rightarrow> real" where
  "first_space E self toc item =
     pdf_w toc - get_x toc - page_label_length E self toc item
       - clearance_margin toc - r_margin toc"

definition space_for_fill ::
  "engine \<Rightarrow> create_toc_obj \<Rightarrow> fpdf \<Rightarrow> bookmark \<Rightarrow> fpdf \<times> real \<times> real" where
  "space_for_fill E self toc item =
     (let current_x = get_x toc;
          in_between_space = first_space E self toc item
      in if in_between_space < 0 then
           (let toc' = ln_pdf toc;
                toc' = set_x (l_margin toc' + indent_of item) toc';
                current_x = get_x toc'
            in (toc', current_x,
                pdf_w toc' - current_x - page_label_length E self toc item - r_margin toc'))
         else (toc, current_x, in_between_space))"

text \<open>
  Lines 167 to 184, the dot leader: the loop, then the cell with the last character
  dropped.
\<close>

definition fill_cell :: "fpdf \<Rightarrow> bookmark \<Rightarrow> real \<Rightarrow> string \<Rightarrow> cell" where
  "fill_cell toc item current_x in_between =
     \<lparr>cell_w = pdf_w toc - current_x - r_margin toc,
      cell_h = font_size toc * line_spacing,
      cell_text = butlast in_between,
      new_x = END, new_y = LAST,
      link = Some (''#'' @ link_name item),
      align = Align_L\<rparr>"

definition accumulate_fill :: "engine \<Rightarrow> fpdf \<Rightarrow> real \<Rightarrow> string option" where
  "accumulate_fill E toc in_between_space =
     (if in_between_space > 0
      then fill_loop (get_string_width E toc) (clearance_margin toc) in_between_space []
      else Some [])"

definition render_fill ::
  "engine \<Rightarrow> fpdf \<Rightarrow> bookmark \<Rightarrow> real \<Rightarrow> real \<Rightarrow> string \<Rightarrow> fpdf" where
  "render_fill E toc item current_x in_between_space in_between =
     (if in_between_space > 0 \<and> length in_between > 1
      then multi_cell E (fill_cell toc item current_x in_between) toc
      else toc)"

text \<open>Lines 186 to 196: the page number on the right.\<close>

definition page_number_cell :: "create_toc_obj \<Rightarrow> fpdf \<Rightarrow> bookmark \<Rightarrow> real \<Rightarrow> cell" where
  "page_number_cell self toc item current_x =
     \<lparr>cell_w = pdf_w toc - current_x - r_margin toc,
      cell_h = font_size toc * line_spacing,
      cell_text = item_page_number self item,
      new_x = LMARGIN, new_y = NEXT,
      link = Some (''#'' @ link_name item),
      align = Align_R\<rparr>"

definition render_page_number ::
  "engine \<Rightarrow> create_toc_obj \<Rightarrow> fpdf \<Rightarrow> bookmark \<Rightarrow> real \<Rightarrow> fpdf" where
  "render_page_number E self toc item current_x =
     (let toc = set_x current_x toc
      in multi_cell E (page_number_cell self toc item current_x) toc)"

definition render_toc_item :: "engine \<Rightarrow> create_toc_obj \<Rightarrow> fpdf \<Rightarrow> bookmark \<Rightarrow> fpdf option" where
  "render_toc_item E self toc item =
     (let toc1 = render_title E toc item;
          (toc2, current_x, in_between_space) = space_for_fill E self toc1 item
      in case accumulate_fill E toc2 in_between_space of
           None \<Rightarrow> None
         | Some in_between \<Rightarrow>
             (let toc3 = render_fill E toc2 item current_x in_between_space in_between;
                  toc4 = render_page_number E self toc3 item current_x
              in Some (use_text_style_exit (get_text_style (depth item)) toc toc4)))"

text \<open>
  \<open>create_toc\<close> (lines 105 to 122): a new document, the heading, then one row for each
  bookmark. A new \<open>FPDF()\<close> has the format and margins that the library gives it, no page
  and no call received yet. The buffer that \<open>output\<close> fills is the document itself.
\<close>

definition heading_cell :: cell where
  "heading_cell =
     \<lparr>cell_w = 0, cell_h = 10, cell_text = ''Table of Contents'',
      new_x = RIGHT, new_y = TOP, link = None, align = Align_C\<rparr>"

definition render_heading :: "engine \<Rightarrow> fpdf \<Rightarrow> fpdf" where
  "render_heading E toc =
     (let saved = toc;
          toc = use_text_style_enter (style_named ''title'') toc;
          toc = set_title ''Table of Contents'' toc;
          toc = cell_call E heading_cell toc
      in use_text_style_exit (style_named ''title'') saved toc)"

fun render_items :: "engine \<Rightarrow> create_toc_obj \<Rightarrow> bookmark list \<Rightarrow> fpdf \<Rightarrow> fpdf option" where
  "render_items E self [] toc = Some toc"
| "render_items E self (bookmark # rest) toc =
     (case render_toc_item E self toc bookmark of
        None \<Rightarrow> None
      | Some toc' \<Rightarrow> render_items E self rest toc')"

definition FPDF :: "engine \<Rightarrow> fpdf" where
  "FPDF E = (new_fpdf E)\<lparr>pdf_page := 0, calls := []\<rparr>"

definition create_toc :: "engine \<Rightarrow> create_toc_obj \<Rightarrow> (fpdf \<times> int) option" where
  "create_toc E self =
     (let toc = add_page (FPDF E);
          toc = render_heading E toc
      in case render_items E self (bookmarks self) toc of
           None \<Rightarrow> None
         | Some toc \<Rightarrow> Some (toc, page_no toc))"

text \<open>
  \<open>merge_pdfs\<close> (lines 198 to 215). The written file is the list of its pages, each
  either a page of the table of contents or a page of the source, and the named
  destinations given to \<open>add_named_destination\<close>, one entry for each call.
\<close>

datatype out_page = TocPage nat | SourcePage nat

record writer =
  pages :: "out_page list"
  named_destinations :: "(string \<times> int) list"

definition toc_reader_pages :: "fpdf \<Rightarrow> out_page list" where
  "toc_reader_pages toc_buffer = map TocPage [1 ..< Suc (pdf_page toc_buffer)]"

definition reader_pages :: "reader \<Rightarrow> out_page list" where
  "reader_pages rd = map SourcePage [0 ..< num_pages rd]"

definition add_named_destination :: "string \<Rightarrow> int \<Rightarrow> writer \<Rightarrow> writer" where
  "add_named_destination name page_number wr =
     wr\<lparr>named_destinations := named_destinations wr @ [(name, page_number)]\<rparr>"

fun add_destinations :: "create_toc_obj \<Rightarrow> bookmark list \<Rightarrow> writer \<Rightarrow> writer" where
  "add_destinations self [] wr = wr"
| "add_destinations self (bookmark # rest) wr =
     (let bookmark_page = page bookmark;
          destination_page = bookmark_page + toc_pages self;
          destination_name = ''dest'' @ str bookmark_page
      in add_destinations self rest (add_named_destination destination_name destination_page wr))"

definition merge_pdfs :: "create_toc_obj \<Rightarrow> fpdf \<Rightarrow> writer" where
  "merge_pdfs self toc_buffer =
     (let wr = \<lparr>pages = toc_reader_pages toc_buffer, named_destinations = []\<rparr>;
          wr = wr\<lparr>pages := pages wr @ reader_pages (reader_of self)\<rparr>
      in add_destinations self (bookmarks self) wr)"

text \<open>
  \<open>__init__\<close> (lines 62 to 80). The bookmarks are flattened, cut and sorted; then the
  table is rendered, once or twice, and merged. The result is the object, the final table
  of contents and the written file. The field \<open>renders\<close> keeps, for each call of
  \<open>create_toc\<close> in order, the value of \<open>toc_pages\<close> it ran with and the number of pages it
  reported.
\<close>

record run =
  self_of :: create_toc_obj
  toc_pdf :: fpdf
  renders :: "(int \<times> int) list"
  written :: writer

definition load_bookmarks :: "reader \<Rightarrow> int \<Rightarrow> bookmark list" where
  "load_bookmarks rd skip_bookmarks =
     (let flat = slice_from (extract_bookmarks rd (outline rd) 0) skip_bookmarks
      in sort_key page flat)"

definition init :: "engine \<Rightarrow> reader \<Rightarrow> int \<Rightarrow> run option" where
  "init E rd skip_bookmarks =
     (let self = \<lparr>reader_of = rd, bookmarks = load_bookmarks rd skip_bookmarks,
                   toc_pages = 1\<rparr>
      in case create_toc E self of
           None \<Rightarrow> None
         | Some (toc1, number_of_pages) \<Rightarrow>
             if number_of_pages \<noteq> toc_pages self then
               (let self2 = self\<lparr>toc_pages := number_of_pages\<rparr>
                in case create_toc E self2 of
                     None \<Rightarrow> None
                   | Some (toc2, n2) \<Rightarrow>
                       Some \<lparr>self_of = self2, toc_pdf = toc2,
                             renders = [(1, number_of_pages), (number_of_pages, n2)],
                             written = merge_pdfs self2 toc2\<rparr>)
             else
               Some \<lparr>self_of = self, toc_pdf = toc1,
                     renders = [(1, number_of_pages)],
                     written = merge_pdfs self toc1\<rparr>)"

subsection \<open>Reading a rendered row\<close>

text \<open>
  The values of the local variables of \<open>render_toc_item\<close> for a row: the FPDF object,
  \<open>current_x\<close> and \<open>in_between_space\<close> when the loop starts, and the string \<open>in_between\<close>
  that the loop leaves (if it returns).
\<close>

definition row_space ::
  "engine \<Rightarrow> create_toc_obj \<Rightarrow> fpdf \<Rightarrow> bookmark \<Rightarrow> fpdf \<times> real \<times> real" where
  "row_space E self toc item = space_for_fill E self (render_title E toc item) item"

definition row_current_x :: "engine \<Rightarrow> create_toc_obj \<Rightarrow> fpdf \<Rightarrow> bookmark \<Rightarrow> real" where
  "row_current_x E self toc item = fst (snd (row_space E self toc item))"

definition row_in_between_space :: "engine \<Rightarrow> create_toc_obj \<Rightarrow> fpdf \<Rightarrow> bookmark \<Rightarrow> real" where
  "row_in_between_space E self toc item = snd (snd (row_space E self toc item))"

definition row_in_between ::
  "engine \<Rightarrow> create_toc_obj \<Rightarrow> fpdf \<Rightarrow> bookmark \<Rightarrow> string option" where
  "row_in_between E self toc item =
     accumulate_fill E (fst (row_space E self toc item)) (row_in_between_space E self toc item)"

text \<open>The calls made between two states of the FPDF object.\<close>

definition calls_since :: "fpdf \<Rightarrow> fpdf \<Rightarrow> call list" where
  "calls_since toc toc' = drop (length (calls toc)) (calls toc')"

definition row_trace ::
  "engine \<Rightarrow> create_toc_obj \<Rightarrow> fpdf \<Rightarrow> bookmark \<Rightarrow> call list option" where
  "row_trace E self toc item =
     (case render_toc_item E self toc item of
        None \<Rightarrow> None
      | Some toc' \<Rightarrow> Some (calls_since toc toc'))"

text \<open>
  The FPDF object at the moment the \<open>multi_cell\<close> of the page number is called: after the
  dot leader (if any) and after \<open>set_x(current_x)\<close>.
\<close>

definition row_at_page_number ::
  "engine \<Rightarrow> create_toc_obj \<Rightarrow> fpdf \<Rightarrow> bookmark \<Rightarrow> fpdf option" where
  "row_at_page_number E self toc item =
     (case row_in_between E self toc item of
        None \<Rightarrow> None
      | Some in_between \<Rightarrow>
          Some (set_x (row_current_x E self toc item)
                  (render_fill E (fst (row_space E self toc item)) item
                     (row_current_x E self toc item)
                     (row_in_between_space E self toc item) in_between)))"

text \<open>The FPDF object with the text style of the row selected.\<close>

definition in_style :: "fpdf \<Rightarrow> bookmark \<Rightarrow> fpdf" where
  "in_style toc item = use_text_style_enter (get_text_style (depth item)) toc"

text \<open>The measured width of a string while the row is rendered (in the font of the row).\<close>

definition row_width :: "engine \<Rightarrow> create_toc_obj \<Rightarrow> fpdf \<Rightarrow> bookmark \<Rightarrow> string \<Rightarrow> real" where
  "row_width E self toc item s = get_string_width E (fst (row_space E self toc item)) s"

text \<open>
  The \<open>multi_cell\<close> calls in a list of calls, and those with a given alignment: the title
  of a row is justified, its dot leader is left-aligned, its page number right-aligned.
\<close>

fun multi_cells :: "call list \<Rightarrow> cell list" where
  "multi_cells [] = []"
| "multi_cells (MultiCell c # cs) = c # multi_cells cs"
| "multi_cells (other # cs) = multi_cells cs"

definition cells_aligned :: "Align \<Rightarrow> call list \<Rightarrow> cell list" where
  "cells_aligned a cs = filter (\<lambda>c. align c = a) (multi_cells cs)"

fun added_links :: "call list \<Rightarrow> string list" where
  "added_links [] = []"
| "added_links (AddLink name # cs) = name # added_links cs"
| "added_links (other # cs) = added_links cs"

text \<open>A run of fill characters.\<close>

definition dots :: "nat \<Rightarrow> string" where
  "dots n = replicate n (CHR ''.'')"

text \<open>The page of the written file at a zero-based index.\<close>

definition page_at :: "writer \<Rightarrow> int \<Rightarrow> out_page option" where
  "page_at wr n =
     (if 0 \<le> n \<and> nat n < length (pages wr) then Some (pages wr ! nat n) else None)"

text \<open>The page of the written file that each named destination points to.\<close>

definition destination_targets :: "writer \<Rightarrow> (string \<times> out_page option) list" where
  "destination_targets wr = map (\<lambda>(name, n). (name, page_at wr n)) (named_destinations wr)"

subsection \<open>A small layout engine for concrete runs\<close>

text \<open>
  A page 100 units wide with margins of 10 and a cell margin of 1, at one point per unit.
  Every glyph is 2 units wide. A block of text is printed on one line, starting one cell
  margin after the current \<open>x\<close>, so its text ends at \<open>x\<close> plus the cell margin plus its
  width; a cell that would reach below 50 goes to the top of a new page. The engine does
  not wrap: every text of the concrete runs below fits in its cell.
\<close>

definition small_page :: fpdf where
  "small_page =
     \<lparr>pdf_k = 1, pdf_w = 100, l_margin = 10, r_margin = 10, t_margin = 10, c_margin = 1,
      font_family = [], font_style = [], font_size_pt = 12, text_color = None,
      pdf_x = 0, pdf_y = 0, pdf_page = 0, lasth = 0, calls = []\<rparr>"

definition one_line :: "fpdf \<Rightarrow> cell \<Rightarrow> placed" where
  "one_line toc c =
     (let turn = (50 < pdf_y toc + cell_h c);
          top = (if turn then t_margin toc else pdf_y toc)
      in \<lparr>p_page = (if turn then pdf_page toc + 1 else pdf_page toc),
          p_top = top, p_last = top,
          p_end = pdf_x toc + c_margin toc + 2 * real (length (cell_text c))\<rparr>)"

definition mono :: engine where
  "mono = \<lparr>new_fpdf = small_page,
            string_width = (\<lambda>toc s. 2 * real (length s)),
            layout = one_line\<rparr>"

text \<open>
  A source of ten pages with three bookmarks, on pages 0, 7 and 9. The title of the second
  one is 37 characters long.
\<close>

definition book :: reader where
  "book =
     \<lparr>outline = [Dest (Destination ''Intro'' 1),
                 Dest (Destination ''Chapter seven with a rather long name'' 2),
                 Other,
                 Dest (Destination ''End'' 3)],
      num_pages = 10,
      get_destination_page_number =
        (\<lambda>d. if dest_ref d = 1 then 0 else if dest_ref d = 2 then 7 else 9)\<rparr>"

text \<open>
  The second pass over \<open>book\<close>: the object with \<open>toc_pages = 2\<close>, the document after the
  heading, and the bookmark of page 7.
\<close>

definition book_obj :: create_toc_obj where
  "book_obj = \<lparr>reader_of = book, bookmarks = load_bookmarks book 0, toc_pages = 2\<rparr>"

definition after_heading :: fpdf where
  "after_heading = render_heading mono (add_page (FPDF mono))"

definition chapter_seven :: bookmark where
  "chapter_seven = \<lparr>depth = 0, title = ''Chapter seven with a rather long name'', page = 7\<rparr>"

definition intro :: bookmark where
  "intro = \<lparr>depth = 0, title = ''Intro'', page = 0\<rparr>"

text \<open>The two rows as rendered by \<open>mono\<close>, and the dot leader of the second one.\<close>

definition intro_row :: fpdf where
  "intro_row = the (render_toc_item mono book_obj after_heading intro)"

definition chapter_seven_row :: fpdf where
  "chapter_seven_row = the (render_toc_item mono book_obj after_heading chapter_seven)"

definition chapter_seven_fill :: cell where
  "chapter_seven_fill =
     \<lparr>cell_w = 80, cell_h = 18, cell_text = dots 36, new_x = END, new_y = LAST,
      link = Some ''#dest7'', align = Align_L\<rparr>"

text \<open>An object with two bookmarks on the same page.\<close>

definition twins_obj :: create_toc_obj where
  "twins_obj =
     \<lparr>reader_of = book,
      bookmarks = [intro, \<lparr>depth = 1, title = ''Preface'', page = 0\<rparr>],
      toc_pages = 2\<rparr>"

text \<open>The run over \<open>book\<close> with nothing skipped.\<close>

definition book_run :: run where
  "book_run = the (init mono book 0)"

text \<open>
  Two indented rows. The first, at depth 3, has a title of 27 characters that leaves no
  room for the page label. The second, at depth 10, starts so far to the right that after
  the line break no dot leader is drawn.
\<close>

definition third_level :: bookmark where
  "third_level = \<lparr>depth = 3, title = ''A third-level heading title'', page = 0\<rparr>"

definition third_level_row :: fpdf where
  "third_level_row = the (render_toc_item mono book_obj after_heading third_level)"

definition tenth_level :: bookmark where
  "tenth_level = \<lparr>depth = 10, title = ''Z'', page = 0\<rparr>"

definition tenth_level_row :: fpdf where
  "tenth_level_row = the (render_toc_item mono book_obj after_heading tenth_level)"

section \<open>Properties of the calls, of the stages of a row and of the loop\<close>

subsection \<open>What the fpdf2 calls leave unchanged\<close>

lemma log_call_fields [simp]:
  "calls (log_call c t) = calls t @ [c]"
  "pdf_w (log_call c t) = pdf_w t"
  "l_margin (log_call c t) = l_margin t"
  "r_margin (log_call c t) = r_margin t"
  "c_margin (log_call c t) = c_margin t"
  "pdf_k (log_call c t) = pdf_k t"
  "font_size_pt (log_call c t) = font_size_pt t"
  "pdf_x (log_call c t) = pdf_x t"
  "pdf_y (log_call c t) = pdf_y t"
  "pdf_page (log_call c t) = pdf_page t"
  by (simp_all add: log_call_def)

lemma add_link_fields [simp]:
  "calls (add_link n t) = calls t @ [AddLink n]"
  "pdf_w (add_link n t) = pdf_w t"
  "l_margin (add_link n t) = l_margin t"
  "r_margin (add_link n t) = r_margin t"
  "c_margin (add_link n t) = c_margin t"
  "pdf_k (add_link n t) = pdf_k t"
  "font_size_pt (add_link n t) = font_size_pt t"
  by (simp_all add: add_link_def)

lemma set_x_fields [simp]:
  "calls (set_x v t) = calls t @ [SetX v]"
  "pdf_w (set_x v t) = pdf_w t"
  "l_margin (set_x v t) = l_margin t"
  "r_margin (set_x v t) = r_margin t"
  "c_margin (set_x v t) = c_margin t"
  "pdf_k (set_x v t) = pdf_k t"
  "font_size_pt (set_x v t) = font_size_pt t"
  "pdf_x (set_x v t) = (if 0 \<le> v then v else pdf_w t + v)"
  by (simp_all add: set_x_def)

lemma ln_pdf_fields [simp]:
  "calls (ln_pdf t) = calls t @ [Ln]"
  "pdf_w (ln_pdf t) = pdf_w t"
  "l_margin (ln_pdf t) = l_margin t"
  "r_margin (ln_pdf t) = r_margin t"
  "c_margin (ln_pdf t) = c_margin t"
  "pdf_k (ln_pdf t) = pdf_k t"
  "font_size_pt (ln_pdf t) = font_size_pt t"
  by (simp_all add: ln_pdf_def line_break_def)

lemma multi_cell_fields [simp]:
  "calls (multi_cell E c t) = calls t @ [MultiCell c]"
  "pdf_w (multi_cell E c t) = pdf_w t"
  "l_margin (multi_cell E c t) = l_margin t"
  "r_margin (multi_cell E c t) = r_margin t"
  "c_margin (multi_cell E c t) = c_margin t"
  "pdf_k (multi_cell E c t) = pdf_k t"
  "font_size_pt (multi_cell E c t) = font_size_pt t"
  by (simp_all add: multi_cell_def place_cell_def Let_def)

lemma multi_cell_cursor:
  "new_x c = LMARGIN \<Longrightarrow> pdf_x (multi_cell E c t) = l_margin t"
  "new_x c = END \<Longrightarrow> pdf_x (multi_cell E c t) = p_end (layout E t c)"
  "new_y c = NEXT \<Longrightarrow> pdf_y (multi_cell E c t) = p_last (layout E t c) + cell_h c"
  "new_y c = LAST \<Longrightarrow> pdf_y (multi_cell E c t) = p_last (layout E t c)"
  by (simp_all add: multi_cell_def place_cell_def Let_def)

lemma use_text_style_enter_fields [simp]:
  "calls (use_text_style_enter st t) = calls t @ [UseTextStyle st]"
  "pdf_w (use_text_style_enter st t) = pdf_w t"
  "l_margin (use_text_style_enter st t) = l_margin t"
  "r_margin (use_text_style_enter st t) = r_margin t"
  "c_margin (use_text_style_enter st t) = c_margin t"
  "pdf_k (use_text_style_enter st t) = pdf_k t"
  "font_size_pt (use_text_style_enter st t) = ts_font_size_pt st"
  by (simp_all add: use_text_style_enter_def)

lemma use_text_style_exit_plain:
  "ts_b_margin st = 0 \<Longrightarrow> calls (use_text_style_exit st saved t) = calls t"
  "ts_b_margin st = 0 \<Longrightarrow> pdf_x (use_text_style_exit st saved t) = pdf_x t"
  "ts_b_margin st = 0 \<Longrightarrow> pdf_y (use_text_style_exit st saved t) = pdf_y t"
  "ts_b_margin st = 0 \<Longrightarrow> pdf_page (use_text_style_exit st saved t) = pdf_page t"
  by (simp_all add: use_text_style_exit_def Let_def)

lemma use_text_style_exit_calls [simp]:
  "calls (use_text_style_exit st saved t) = calls t"
  by (simp add: use_text_style_exit_def Let_def line_break_def)

lemma get_text_style_b_margin: "ts_b_margin (get_text_style d) = 0"
  by (simp add: get_text_style_def TOC_TEXT_STYLES_def style_named_def)

subsection \<open>The stages of a row\<close>

lemma in_style_frame [simp]:
  "pdf_w (in_style toc item) = pdf_w toc"
  "l_margin (in_style toc item) = l_margin toc"
  "r_margin (in_style toc item) = r_margin toc"
  "c_margin (in_style toc item) = c_margin toc"
  "pdf_k (in_style toc item) = pdf_k toc"
  "font_size_pt (in_style toc item) = ts_font_size_pt (get_text_style (depth item))"
  by (simp_all add: in_style_def)

lemma title_cell_cong:
  "pdf_w a = pdf_w b \<Longrightarrow> l_margin a = l_margin b \<Longrightarrow> r_margin a = r_margin b
   \<Longrightarrow> pdf_k a = pdf_k b \<Longrightarrow> font_size_pt a = font_size_pt b
   \<Longrightarrow> title_cell a item = title_cell b item"
  by (simp add: title_cell_def font_size_def epw_def)

lemma fill_cell_cong:
  "pdf_w a = pdf_w b \<Longrightarrow> r_margin a = r_margin b \<Longrightarrow> pdf_k a = pdf_k b
   \<Longrightarrow> font_size_pt a = font_size_pt b \<Longrightarrow> fill_cell a item cx ib = fill_cell b item cx ib"
  by (simp add: fill_cell_def font_size_def)

lemma page_number_cell_cong:
  "pdf_w a = pdf_w b \<Longrightarrow> r_margin a = r_margin b \<Longrightarrow> pdf_k a = pdf_k b
   \<Longrightarrow> font_size_pt a = font_size_pt b
   \<Longrightarrow> page_number_cell self a item cx = page_number_cell self b item cx"
  by (simp add: page_number_cell_def font_size_def)

lemma render_title_frame [simp]:
  "pdf_w (render_title E toc item) = pdf_w toc"
  "l_margin (render_title E toc item) = l_margin toc"
  "r_margin (render_title E toc item) = r_margin toc"
  "c_margin (render_title E toc item) = c_margin toc"
  "pdf_k (render_title E toc item) = pdf_k toc"
  "font_size_pt (render_title E toc item) = ts_font_size_pt (get_text_style (depth item))"
  by (simp_all add: render_title_def Let_def)

lemma render_title_calls:
  "calls (render_title E toc item) =
     calls toc @ [AddLink (link_name item), UseTextStyle (get_text_style (depth item)),
                  SetX (l_margin toc + indent_of item), MultiCell (title_cell (in_style toc item) item)]"
proof -
  have "title_cell (set_x v (use_text_style_enter (get_text_style (depth item)) (add_link n toc))) item
          = title_cell (in_style toc item) item" for v n
    by (rule title_cell_cong) simp_all
  then show ?thesis by (simp add: render_title_def Let_def)
qed

lemma space_for_fill_frame [simp]:
  "pdf_w (fst (space_for_fill E self toc item)) = pdf_w toc"
  "l_margin (fst (space_for_fill E self toc item)) = l_margin toc"
  "r_margin (fst (space_for_fill E self toc item)) = r_margin toc"
  "c_margin (fst (space_for_fill E self toc item)) = c_margin toc"
  "pdf_k (fst (space_for_fill E self toc item)) = pdf_k toc"
  "font_size_pt (fst (space_for_fill E self toc item)) = font_size_pt toc"
  by (simp_all add: space_for_fill_def Let_def)

lemma space_for_fill_calls:
  "calls (fst (space_for_fill E self toc item)) =
     calls toc @ (if first_space E self toc item < 0
                  then [Ln, SetX (l_margin toc + indent_of item)] else [])"
  by (simp add: space_for_fill_def Let_def)

lemma space_for_fill_break:
  assumes "first_space E self toc item < 0" and "0 \<le> l_margin toc + indent_of item"
  shows "snd (space_for_fill E self toc item) =
           (l_margin toc + indent_of item,
            pdf_w toc - (l_margin toc + indent_of item) - page_label_length E self toc item
              - r_margin toc)"
    and "pdf_x (fst (space_for_fill E self toc item)) = l_margin toc + indent_of item"
  using assms by (simp_all add: space_for_fill_def Let_def get_x_def)

lemma space_for_fill_stay:
  assumes "\<not> first_space E self toc item < 0"
  shows "space_for_fill E self toc item = (toc, get_x toc, first_space E self toc item)"
  using assms by (simp add: space_for_fill_def Let_def)

lemma row_space_frame [simp]:
  "pdf_w (fst (row_space E self toc item)) = pdf_w toc"
  "l_margin (fst (row_space E self toc item)) = l_margin toc"
  "r_margin (fst (row_space E self toc item)) = r_margin toc"
  "c_margin (fst (row_space E self toc item)) = c_margin toc"
  "pdf_k (fst (row_space E self toc item)) = pdf_k toc"
  "font_size_pt (fst (row_space E self toc item)) = ts_font_size_pt (get_text_style (depth item))"
  by (simp_all add: row_space_def)

lemma row_space_calls:
  "calls (fst (row_space E self toc item)) =
     calls toc @ [AddLink (link_name item), UseTextStyle (get_text_style (depth item)),
                  SetX (l_margin toc + indent_of item),
                  MultiCell (title_cell (in_style toc item) item)]
       @ (if first_space E self (render_title E toc item) item < 0
          then [Ln, SetX (l_margin toc + indent_of item)] else [])"
  by (simp add: row_space_def space_for_fill_calls render_title_calls)

lemma render_fill_calls:
  "calls (render_fill E t item cx sp ib) =
     calls t @ (if 0 < sp \<and> 1 < length ib then [MultiCell (fill_cell t item cx ib)] else [])"
  by (simp add: render_fill_def)

lemma render_fill_frame [simp]:
  "pdf_w (render_fill E t item cx sp ib) = pdf_w t"
  "l_margin (render_fill E t item cx sp ib) = l_margin t"
  "r_margin (render_fill E t item cx sp ib) = r_margin t"
  "pdf_k (render_fill E t item cx sp ib) = pdf_k t"
  "font_size_pt (render_fill E t item cx sp ib) = font_size_pt t"
  by (simp_all add: render_fill_def)

lemma render_page_number_calls:
  "calls (render_page_number E self t item cx) =
     calls t @ [SetX cx, MultiCell (page_number_cell self t item cx)]"
proof -
  have "page_number_cell self (set_x cx t) item cx = page_number_cell self t item cx"
    by (rule page_number_cell_cong) simp_all
  then show ?thesis by (simp add: render_page_number_def Let_def)
qed

lemma render_page_number_cursor:
  "pdf_x (render_page_number E self t item cx) = l_margin t"
  "pdf_y (render_page_number E self t item cx) =
     p_last (layout E (set_x cx t) (page_number_cell self t item cx))
       + font_size t * line_spacing"
proof -
  have eq: "page_number_cell self (set_x cx t) item cx = page_number_cell self t item cx"
    by (rule page_number_cell_cong) simp_all
  show "pdf_x (render_page_number E self t item cx) = l_margin t"
    by (simp add: render_page_number_def Let_def multi_cell_cursor page_number_cell_def)
  show "pdf_y (render_page_number E self t item cx) =
     p_last (layout E (set_x cx t) (page_number_cell self t item cx))
       + font_size t * line_spacing"
    unfolding render_page_number_def Let_def eq
    by (simp add: multi_cell_cursor page_number_cell_def)
qed

text \<open>What a row that returns has done.\<close>

lemma render_toc_item_SomeD:
  assumes "render_toc_item E self toc item = Some toc'"
  shows "\<exists>ib. row_in_between E self toc item = Some ib
           \<and> toc' = use_text_style_exit (get_text_style (depth item)) toc
                      (render_page_number E self
                         (render_fill E (fst (row_space E self toc item)) item
                            (row_current_x E self toc item)
                            (row_in_between_space E self toc item) ib)
                         item (row_current_x E self toc item))"
  using assms
  by (auto simp: render_toc_item_def Let_def row_in_between_def row_space_def row_current_x_def
        row_in_between_space_def split: prod.splits option.splits)

lemma render_toc_item_calls:
  assumes "render_toc_item E self toc item = Some toc'"
  shows "\<exists>ib. row_in_between E self toc item = Some ib
           \<and> calls toc' =
               calls toc @ [AddLink (link_name item), UseTextStyle (get_text_style (depth item)),
                            SetX (l_margin toc + indent_of item),
                            MultiCell (title_cell (in_style toc item) item)]
                 @ (if first_space E self (render_title E toc item) item < 0
                    then [Ln, SetX (l_margin toc + indent_of item)] else [])
                 @ (if 0 < row_in_between_space E self toc item \<and> 1 < length ib
                    then [MultiCell (fill_cell (in_style toc item) item
                                       (row_current_x E self toc item) ib)]
                    else [])
                 @ [SetX (row_current_x E self toc item),
                    MultiCell (page_number_cell self (in_style toc item) item
                                 (row_current_x E self toc item))]"
proof -
  from render_toc_item_SomeD[OF assms] obtain ib where
    ib: "row_in_between E self toc item = Some ib" and
    toc': "toc' = use_text_style_exit (get_text_style (depth item)) toc
                      (render_page_number E self
                         (render_fill E (fst (row_space E self toc item)) item
                            (row_current_x E self toc item)
                            (row_in_between_space E self toc item) ib)
                         item (row_current_x E self toc item))"
    by blast
  have fc: "fill_cell (fst (row_space E self toc item)) item cx ib
              = fill_cell (in_style toc item) item cx ib" for cx
    by (rule fill_cell_cong) simp_all
  have pc: "page_number_cell self (render_fill E (fst (row_space E self toc item)) item cx sp ib) item cx
              = page_number_cell self (in_style toc item) item cx" for cx sp
    by (rule page_number_cell_cong) simp_all
  have "calls toc' =
               calls toc @ [AddLink (link_name item), UseTextStyle (get_text_style (depth item)),
                            SetX (l_margin toc + indent_of item),
                            MultiCell (title_cell (in_style toc item) item)]
                 @ (if first_space E self (render_title E toc item) item < 0
                    then [Ln, SetX (l_margin toc + indent_of item)] else [])
                 @ (if 0 < row_in_between_space E self toc item \<and> 1 < length ib
                    then [MultiCell (fill_cell (in_style toc item) item
                                       (row_current_x E self toc item) ib)]
                    else [])
                 @ [SetX (row_current_x E self toc item),
                    MultiCell (page_number_cell self (in_style toc item) item
                                 (row_current_x E self toc item))]"
    unfolding toc'
    by (simp only: use_text_style_exit_calls
          render_page_number_calls render_fill_calls row_space_calls fc pc append_assoc)
  with ib show ?thesis by blast
qed

subsection \<open>The loop\<close>

lemma dots_simps [simp]:
  "dots 0 = []"
  "length (dots n) = n"
  by (simp_all add: dots_def)

lemma dots_Suc: "dots (Suc n) = dots n @ ''.''"
  by (simp add: dots_def replicate_append_same)

lemma butlast_dots [simp]: "butlast (dots n) = dots (n - 1)"
  by (cases n) (simp_all add: dots_Suc)

lemma fill_loop_result:
  assumes "fill_loop g cm sp s = Some r"
  shows "\<not> g r + cm < sp \<and> (\<exists>n. r = s @ dots n \<and> (\<forall>m<n. g (s @ dots m) + cm < sp))"
  using assms
proof (induction g cm sp s r rule: fill_loop.raw_induct[rotated 1, consumes 1, case_names step])
  case (step f g cm sp s r)
  show ?case
  proof (cases "g s + cm < sp")
    case True
    with step(2) have "f g cm sp (s @ ''.'') = Some r" by simp
    from step(1)[OF this] obtain n where
      stop: "\<not> g r + cm < sp" and r: "r = (s @ ''.'') @ dots n"
      and below: "\<forall>m<n. g ((s @ ''.'') @ dots m) + cm < sp" by blast
    have shift: "(s @ ''.'') @ dots m = s @ dots (Suc m)" for m
      by (simp add: dots_def replicate_append_same)
    have "\<forall>m<Suc n. g (s @ dots m) + cm < sp"
    proof (intro allI impI)
      fix m assume "m < Suc n"
      show "g (s @ dots m) + cm < sp"
      proof (cases m)
        case 0 with True show ?thesis by simp
      next
        case (Suc k)
        with \<open>m < Suc n\<close> have "k < n" by simp
        with below have "g ((s @ ''.'') @ dots k) + cm < sp" by blast
        then show ?thesis unfolding shift Suc .
      qed
    qed
    with stop r shift[of n] show ?thesis by metis
  next
    case False
    with step(2) have "r = s" by simp
    with False have "\<not> g r + cm < sp \<and> r = s @ dots 0 \<and> (\<forall>m<0. g (s @ dots m) + cm < sp)"
      by simp
    then show ?thesis by blast
  qed
qed

lemma fill_loop_trim:
  assumes "fill_loop g cm sp [] = Some ib" and "ib \<noteq> []"
  shows "g (butlast ib) + cm < sp" and "\<not> g (butlast ib @ ''.'') + cm < sp"
    and "ib = dots (length ib)"
proof -
  from fill_loop_result[OF assms(1)] obtain n where
    stop: "\<not> g ib + cm < sp" and ib: "ib = dots n" and below: "\<forall>m<n. g (dots m) + cm < sp"
    by auto
  from ib assms(2) obtain k where n: "n = Suc k" by (cases n) auto
  from ib show "ib = dots (length ib)" by simp
  from below n have "g (dots k) + cm < sp" by simp
  with ib n show "g (butlast ib) + cm < sp" by simp
  from stop ib n show "\<not> g (butlast ib @ ''.'') + cm < sp" by (simp add: dots_Suc)
qed

lemma fill_loop_stops:
  fixes g :: "string \<Rightarrow> real"
  assumes pos: "0 < d" and grow: "\<And>m. g (dots m) + d \<le> g (dots (Suc m))"
  shows "\<exists>n. fill_loop g cm sp [] = Some (dots n)"
proof -
  have lower: "g [] + real m * d \<le> g (dots m)" for m
  proof (induction m)
    case 0
    show ?case by simp
  next
    case (Suc m)
    have "g [] + real (Suc m) * d = (g [] + real m * d) + d" by (simp add: algebra_simps)
    also have "\<dots> \<le> g (dots m) + d" using Suc by simp
    also have "\<dots> \<le> g (dots (Suc m))" by (rule grow)
    finally show ?case .
  qed
  define N where "N = nat \<lceil>(sp - cm - g []) / d\<rceil>"
  have "(sp - cm - g []) / d \<le> real N" unfolding N_def by linarith
  with pos have enough: "sp - cm - g [] \<le> real N * d" by (simp add: pos_divide_le_eq)
  have "\<exists>n. fill_loop g cm sp (dots j) = Some (dots n)" if "j \<le> N" for j
    using that
  proof (induction "N - j" arbitrary: j)
    case 0
    then have "j = N" by simp
    with lower[of N] enough have "\<not> g (dots j) + cm < sp" by simp
    then have "fill_loop g cm sp (dots j) = Some (dots j)"
      by (subst fill_loop.simps) simp
    then show ?case by blast
  next
    case (Suc k)
    show ?case
    proof (cases "g (dots j) + cm < sp")
      case True
      from Suc.hyps(2) Suc.prems have "k = N - Suc j" and "Suc j \<le> N" by simp_all
      from Suc.hyps(1)[OF this] obtain n where
        "fill_loop g cm sp (dots (Suc j)) = Some (dots n)" by blast
      with True have "fill_loop g cm sp (dots j) = Some (dots n)"
        by (subst fill_loop.simps) (simp add: dots_Suc)
      then show ?thesis by blast
    next
      case False
      then have "fill_loop g cm sp (dots j) = Some (dots j)"
        by (subst fill_loop.simps) simp
      then show ?thesis by blast
    qed
  qed
  from this[of 0] show ?thesis by simp
qed

subsection \<open>Reading the calls of a row\<close>

lemma multi_cells_append [simp]: "multi_cells (xs @ ys) = multi_cells xs @ multi_cells ys"
  by (induction xs rule: multi_cells.induct) simp_all

lemma added_links_append [simp]: "added_links (xs @ ys) = added_links xs @ added_links ys"
  by (induction xs rule: added_links.induct) simp_all

lemma cells_aligned_append [simp]:
  "cells_aligned a (xs @ ys) = cells_aligned a xs @ cells_aligned a ys"
  by (simp add: cells_aligned_def)

lemma calls_since_append: "calls toc' = calls toc @ cs \<Longrightarrow> calls_since toc toc' = cs"
  by (simp add: calls_since_def)

lemma cell_fields [simp]:
  "align (title_cell t item) = Align_J"
  "align (fill_cell t item cx ib) = Align_L"
  "align (page_number_cell self t item cx) = Align_R"
  "link (title_cell t item) = Some (''#'' @ link_name item)"
  "link (fill_cell t item cx ib) = Some (''#'' @ link_name item)"
  "link (page_number_cell self t item cx) = Some (''#'' @ link_name item)"
  "cell_text (title_cell t item) = title item"
  "cell_text (fill_cell t item cx ib) = butlast ib"
  "cell_text (page_number_cell self t item cx) = item_page_number self item"
  "cell_w (fill_cell t item cx ib) = pdf_w t - cx - r_margin t"
  by (simp_all add: title_cell_def fill_cell_def page_number_cell_def)

lemma row_calls_since:
  assumes "render_toc_item E self toc item = Some toc'"
  shows "\<exists>ib. row_in_between E self toc item = Some ib
           \<and> calls_since toc toc' =
               [AddLink (link_name item), UseTextStyle (get_text_style (depth item)),
                SetX (l_margin toc + indent_of item),
                MultiCell (title_cell (in_style toc item) item)]
                 @ (if first_space E self (render_title E toc item) item < 0
                    then [Ln, SetX (l_margin toc + indent_of item)] else [])
                 @ (if 0 < row_in_between_space E self toc item \<and> 1 < length ib
                    then [MultiCell (fill_cell (in_style toc item) item
                                       (row_current_x E self toc item) ib)]
                    else [])
                 @ [SetX (row_current_x E self toc item),
                    MultiCell (page_number_cell self (in_style toc item) item
                                 (row_current_x E self toc item))]"
proof -
  from render_toc_item_calls[OF assms] obtain ib where
    ib: "row_in_between E self toc item = Some ib" and
    cs: "calls toc' = calls toc @ ([AddLink (link_name item), UseTextStyle (get_text_style (depth item)),
                SetX (l_margin toc + indent_of item),
                MultiCell (title_cell (in_style toc item) item)]
                 @ (if first_space E self (render_title E toc item) item < 0
                    then [Ln, SetX (l_margin toc + indent_of item)] else [])
                 @ (if 0 < row_in_between_space E self toc item \<and> 1 < length ib
                    then [MultiCell (fill_cell (in_style toc item) item
                                       (row_current_x E self toc item) ib)]
                    else [])
                 @ [SetX (row_current_x E self toc item),
                    MultiCell (page_number_cell self (in_style toc item) item
                                 (row_current_x E self toc item))])"
    by auto
  from calls_since_append[OF cs] ib show ?thesis by blast
qed

lemma row_fill_cells:
  assumes "render_toc_item E self toc item = Some toc'"
  shows "\<exists>ib. row_in_between E self toc item = Some ib
           \<and> cells_aligned Align_L (calls_since toc toc') =
               (if 0 < row_in_between_space E self toc item \<and> 1 < length ib
                then [fill_cell (in_style toc item) item (row_current_x E self toc item) ib]
                else [])"
proof -
  from row_calls_since[OF assms] obtain ib where
    ib: "row_in_between E self toc item = Some ib" and
    cs: "calls_since toc toc' =
               [AddLink (link_name item), UseTextStyle (get_text_style (depth item)),
                SetX (l_margin toc + indent_of item),
                MultiCell (title_cell (in_style toc item) item)]
                 @ (if first_space E self (render_title E toc item) item < 0
                    then [Ln, SetX (l_margin toc + indent_of item)] else [])
                 @ (if 0 < row_in_between_space E self toc item \<and> 1 < length ib
                    then [MultiCell (fill_cell (in_style toc item) item
                                       (row_current_x E self toc item) ib)]
                    else [])
                 @ [SetX (row_current_x E self toc item),
                    MultiCell (page_number_cell self (in_style toc item) item
                                 (row_current_x E self toc item))]"
    by blast
  have "cells_aligned Align_L (calls_since toc toc') =
               (if 0 < row_in_between_space E self toc item \<and> 1 < length ib
                then [fill_cell (in_style toc item) item (row_current_x E self toc item) ib]
                else [])"
    unfolding cs by (simp add: cells_aligned_def)
  with ib show ?thesis by blast
qed

lemma row_loop:
  assumes "row_in_between E self toc item = Some ib"
      and "0 < row_in_between_space E self toc item"
  shows "fill_loop (row_width E self toc item) (clearance_margin toc)
           (row_in_between_space E self toc item) [] = Some ib"
proof -
  have w: "get_string_width E (fst (row_space E self toc item)) = row_width E self toc item"
    by (rule ext) (simp add: row_width_def)
  have c: "clearance_margin (fst (row_space E self toc item)) = clearance_margin toc"
    by (simp add: clearance_margin_def)
  from assms show ?thesis
    by (simp add: row_in_between_def accumulate_fill_def w c)
qed

section \<open>The row layout\<close>

subsection \<open>The concrete rows and the concrete run\<close>

lemma mono_width: "row_width mono self toc item s = 2 * real (length s)"
  by (simp add: row_width_def get_string_width_def mono_def)

lemma intro_row_eq: "render_toc_item mono book_obj after_heading intro = Some intro_row"
  by code_simp

lemma chapter_seven_row_eq:
  "render_toc_item mono book_obj after_heading chapter_seven = Some chapter_seven_row"
  by code_simp

lemma third_level_row_eq:
  "render_toc_item mono book_obj after_heading third_level = Some third_level_row"
  by code_simp

lemma tenth_level_row_eq:
  "render_toc_item mono book_obj after_heading tenth_level = Some tenth_level_row"
  by code_simp

lemma book_run_eq: "init mono book 0 = Some book_run"
proof -
  have "\<not> Option.is_none (init mono book 0)" by code_simp
  then show ?thesis by (auto simp: book_run_def Option.is_none_def)
qed

subsection \<open>The dot leader, the line break and the page number\<close>

text \<open>
  C1. In a row whose \<open>in_between_space\<close> is positive, the dot leader is drawn exactly when
  the accumulated string is longer than one character, and what is drawn is that string
  without its last character. The drawn string fits: its measured width plus the clearance
  margin is below \<open>in_between_space\<close>. It is maximal: with one more fill character the
  measured width plus the clearance margin reaches \<open>in_between_space\<close>.
\<close>

theorem fill_fits_and_is_maximal:
  assumes "render_toc_item E self toc item = Some toc'"
      and "0 < row_in_between_space E self toc item"
  shows "\<exists>in_between.
           row_in_between E self toc item = Some in_between
         \<and> map cell_text (cells_aligned Align_L (calls_since toc toc')) =
             (if 1 < length in_between then [butlast in_between] else [])
         \<and> (1 < length in_between \<longrightarrow>
               row_width E self toc item (butlast in_between) + clearance_margin toc
                 < row_in_between_space E self toc item
             \<and> row_in_between_space E self toc item
                 \<le> row_width E self toc item (butlast in_between @ ''.'') + clearance_margin toc)"
proof -
  from row_fill_cells[OF assms(1)] assms(2) obtain ib where
    ib: "row_in_between E self toc item = Some ib" and
    cells: "cells_aligned Align_L (calls_since toc toc') =
              (if 1 < length ib
               then [fill_cell (in_style toc item) item (row_current_x E self toc item) ib]
               else [])"
    by auto
  have texts: "map cell_text (cells_aligned Align_L (calls_since toc toc')) =
                 (if 1 < length ib then [butlast ib] else [])"
    unfolding cells by simp
  have fit: "row_width E self toc item (butlast ib) + clearance_margin toc
                 < row_in_between_space E self toc item
             \<and> row_in_between_space E self toc item
                 \<le> row_width E self toc item (butlast ib @ ''.'') + clearance_margin toc"
    if "1 < length ib"
  proof -
    from that have ne: "ib \<noteq> []" by auto
    from fill_loop_trim(1,2)[OF row_loop[OF ib assms(2)] ne] show ?thesis by simp
  qed
  from ib texts fit show ?thesis by blast
qed

theorem fill_fits_and_is_maximal_witness:
  "row_in_between_space mono book_obj after_heading intro = 65
   \<and> row_in_between mono book_obj after_heading intro = Some (dots 32)
   \<and> map cell_text (cells_aligned Align_L (calls_since after_heading intro_row)) = [dots 31]
   \<and> row_width mono book_obj after_heading intro (dots 31) + clearance_margin after_heading
        < row_in_between_space mono book_obj after_heading intro
   \<and> row_in_between_space mono book_obj after_heading intro
        \<le> row_width mono book_obj after_heading intro (dots 31 @ ''.'')
            + clearance_margin after_heading"
proof -
  note r = intro_row_eq
  have s: "row_in_between_space mono book_obj after_heading intro = 65"
    by code_simp
  then have p: "0 < row_in_between_space mono book_obj after_heading intro" by simp
  have v: "row_in_between mono book_obj after_heading intro = Some (dots 32)"
    by code_simp
  from fill_fits_and_is_maximal[OF r p] v s show ?thesis by auto
qed

text \<open>
  C6. Whenever a dot leader is drawn, on either path, the \<open>in_between_space\<close> in force
  (recomputed after a forced line break) is positive and the accumulated string is longer
  than one character, so the drawn text is not empty. When the width of a run of fill
  characters is proportional to its length, the drawn text has a positive measured width.
\<close>

theorem fill_only_when_room:
  assumes "render_toc_item E self toc item = Some toc'"
      and "c \<in> set (cells_aligned Align_L (calls_since toc toc'))"
  shows "0 < row_in_between_space E self toc item
       \<and> (\<exists>in_between. row_in_between E self toc item = Some in_between
             \<and> 1 < length in_between \<and> cell_text c = butlast in_between)
       \<and> cell_text c \<noteq> []
       \<and> ((\<forall>n. row_width E self toc item (dots n) = real n * row_width E self toc item ''.'')
            \<longrightarrow> 0 < row_width E self toc item (cell_text c))"
proof -
  from row_fill_cells[OF assms(1)] obtain ib where
    ib: "row_in_between E self toc item = Some ib" and
    cells: "cells_aligned Align_L (calls_since toc toc') =
              (if 0 < row_in_between_space E self toc item \<and> 1 < length ib
               then [fill_cell (in_style toc item) item (row_current_x E self toc item) ib]
               else [])"
    by blast
  from assms(2) cells have room: "0 < row_in_between_space E self toc item"
    and long: "1 < length ib"
    and c: "c = fill_cell (in_style toc item) item (row_current_x E self toc item) ib"
    by (auto split: if_splits)
  from c have ctext: "cell_text c = butlast ib" by simp
  from long have ne: "ib \<noteq> []" by auto
  from long ctext have nonempty: "cell_text c \<noteq> []"
    by (cases ib rule: rev_cases) auto
  let ?g = "row_width E self toc item"
  have wide: "0 < ?g (cell_text c)" if add: "\<forall>n. ?g (dots n) = real n * ?g ''.''"
  proof -
    note trim = fill_loop_trim[OF row_loop[OF ib room] ne]
    from long have "length ib = Suc (Suc (length ib - 2))" by simp
    then obtain k where k: "length ib = Suc (Suc k)" ..
    from trim(3) k have ib_dots: "ib = dots (Suc (Suc k))" by simp
    then have bl: "butlast ib = dots (Suc k)" by (metis butlast_dots diff_Suc_1)
    have full: "butlast ib @ ''.'' = dots (Suc (Suc k))" unfolding bl by (simp add: dots_Suc)
    from trim(1,2) have "?g (butlast ib) < ?g (butlast ib @ ''.'')" by linarith
    then have "?g (dots (Suc k)) < ?g (dots (Suc (Suc k)))" unfolding full unfolding bl .
    with add have "real (Suc k) * ?g ''.'' < real (Suc (Suc k)) * ?g ''.''" by simp
    then have "0 < ?g ''.''" by (simp add: algebra_simps)
    then have "0 < real (Suc k) * ?g ''.''" by simp
    with add ctext bl show ?thesis by simp
  qed
  from room ib long ctext nonempty wide show ?thesis by blast
qed

theorem fill_only_when_room_witness:
  "first_space mono book_obj (render_title mono after_heading chapter_seven) chapter_seven < 0
   \<and> chapter_seven_fill \<in> set (cells_aligned Align_L (calls_since after_heading chapter_seven_row))
   \<and> 0 < row_in_between_space mono book_obj after_heading chapter_seven
   \<and> row_in_between mono book_obj after_heading chapter_seven = Some (dots 37)
   \<and> cell_text chapter_seven_fill \<noteq> []
   \<and> 0 < row_width mono book_obj after_heading chapter_seven (cell_text chapter_seven_fill)"
proof -
  note r = chapter_seven_row_eq
  have c: "chapter_seven_fill
             \<in> set (cells_aligned Align_L (calls_since after_heading chapter_seven_row))"
    by code_simp
  have b: "first_space mono book_obj (render_title mono after_heading chapter_seven)
             chapter_seven < 0"
    by code_simp
  have v: "row_in_between mono book_obj after_heading chapter_seven = Some (dots 37)"
    by code_simp
  have a: "\<forall>n. row_width mono book_obj after_heading chapter_seven (dots n)
                = real n * row_width mono book_obj after_heading chapter_seven ''.''"
    by (simp add: mono_width)
  from fill_only_when_room[OF r c] a b c v show ?thesis by auto
qed

lemma line_break_stage:
  assumes "0 \<le> l_margin toc"
  shows "first_space E self (render_title E toc item) item =
           pdf_w toc - get_x (render_title E toc item)
             - page_label_length E self (render_title E toc item) item
             - clearance_margin toc - r_margin toc
       \<and> (first_space E self (render_title E toc item) item < 0 \<longrightarrow>
             calls (fst (row_space E self toc item)) =
               calls (render_title E toc item) @ [Ln, SetX (l_margin toc + indent_of item)]
           \<and> pdf_x (fst (row_space E self toc item)) = l_margin toc + indent_of item
           \<and> row_current_x E self toc item = l_margin toc + indent_of item
           \<and> row_in_between_space E self toc item =
               pdf_w toc - (l_margin toc + indent_of item)
                 - page_label_length E self (render_title E toc item) item - r_margin toc)
       \<and> (0 \<le> first_space E self (render_title E toc item) item \<longrightarrow>
             fst (row_space E self toc item) = render_title E toc item
           \<and> row_current_x E self toc item = get_x (render_title E toc item)
           \<and> row_in_between_space E self toc item =
               first_space E self (render_title E toc item) item)
       \<and> (render_toc_item E self toc item = Some toc' \<longrightarrow>
             (Ln \<in> set (calls_since toc toc')) =
               (first_space E self (render_title E toc item) item < 0))"
proof -
  let ?t1 = "render_title E toc item"
  have ind: "0 \<le> l_margin ?t1 + indent_of item"
    using assms by (simp add: indent_of_def level_indent_def)
  have formula: "first_space E self ?t1 item =
           pdf_w toc - get_x ?t1 - page_label_length E self ?t1 item
             - clearance_margin toc - r_margin toc"
    by (simp add: first_space_def clearance_margin_def)
  have taken: "calls (fst (row_space E self toc item)) =
             calls ?t1 @ [Ln, SetX (l_margin toc + indent_of item)]
         \<and> pdf_x (fst (row_space E self toc item)) = l_margin toc + indent_of item
         \<and> row_current_x E self toc item = l_margin toc + indent_of item
         \<and> row_in_between_space E self toc item =
             pdf_w toc - (l_margin toc + indent_of item)
               - page_label_length E self ?t1 item - r_margin toc"
    if neg: "first_space E self ?t1 item < 0"
    using space_for_fill_break[OF neg ind] neg
    by (simp add: row_space_def row_current_x_def row_in_between_space_def space_for_fill_calls)
  have kept: "fst (row_space E self toc item) = ?t1
         \<and> row_current_x E self toc item = get_x ?t1
         \<and> row_in_between_space E self toc item = first_space E self ?t1 item"
    if "0 \<le> first_space E self ?t1 item"
  proof -
    from that have "\<not> first_space E self ?t1 item < 0" by simp
    from space_for_fill_stay[OF this] show ?thesis
      by (simp add: row_space_def row_current_x_def row_in_between_space_def)
  qed
  have seen: "(Ln \<in> set (calls_since toc toc')) = (first_space E self ?t1 item < 0)"
    if "render_toc_item E self toc item = Some toc'"
    using row_calls_since[OF that] by auto
  from formula taken kept seen show ?thesis by blast
qed

text \<open>
  C2. The space left after the title is the page width minus the current \<open>x\<close>, the width
  of the page label, the clearance margin and the right margin. When it is negative, the
  row calls \<open>ln\<close> and then \<open>set_x\<close> with the left margin plus 7.5 times the depth, \<open>x\<close> is
  that value, and the space is recomputed as the page width minus \<open>x\<close>, the label width
  and the right margin, without the clearance margin. When it is zero or positive nothing
  is called and the first value stands. A finished row contains a line break exactly in
  the first case.
\<close>

theorem line_break_when_negative:
  assumes "0 \<le> l_margin toc"
  shows "first_space E self (render_title E toc item) item =
           pdf_w toc - get_x (render_title E toc item)
             - get_string_width E (render_title E toc item)
                 (str (page item + toc_pages self + 1))
             - c_margin toc * 2 - r_margin toc
       \<and> (first_space E self (render_title E toc item) item < 0 \<longrightarrow>
             calls (fst (row_space E self toc item)) =
               calls (render_title E toc item)
                 @ [Ln, SetX (l_margin toc + real (depth item) * 7.5)]
           \<and> pdf_x (fst (row_space E self toc item)) = l_margin toc + real (depth item) * 7.5
           \<and> row_current_x E self toc item = l_margin toc + real (depth item) * 7.5
           \<and> row_in_between_space E self toc item =
               pdf_w toc - (l_margin toc + real (depth item) * 7.5)
                 - get_string_width E (render_title E toc item)
                     (str (page item + toc_pages self + 1))
                 - r_margin toc)
       \<and> (0 \<le> first_space E self (render_title E toc item) item \<longrightarrow>
             fst (row_space E self toc item) = render_title E toc item
           \<and> row_current_x E self toc item = get_x (render_title E toc item)
           \<and> row_in_between_space E self toc item =
               first_space E self (render_title E toc item) item)
       \<and> (render_toc_item E self toc item = Some toc' \<longrightarrow>
             (Ln \<in> set (calls_since toc toc')) =
               (first_space E self (render_title E toc item) item < 0))"
  using line_break_stage[OF assms, of E self item toc']
  by (simp add: indent_of_def level_indent_def page_label_length_def item_page_number_def
        clearance_margin_def)

theorem line_break_when_negative_witness:
  "0 \<le> l_margin after_heading
   \<and> get_x (render_title mono after_heading third_level) = 175 / 2
   \<and> first_space mono book_obj (render_title mono after_heading third_level) third_level
       = - (3 / 2)
   \<and> calls (fst (row_space mono book_obj after_heading third_level)) =
       calls (render_title mono after_heading third_level) @ [Ln, SetX (65 / 2)]
   \<and> row_current_x mono book_obj after_heading third_level = 65 / 2
   \<and> row_in_between_space mono book_obj after_heading third_level = 111 / 2
   \<and> Ln \<in> set (calls_since after_heading third_level_row)
   \<and> first_space mono book_obj (render_title mono after_heading intro) intro = 65
   \<and> row_current_x mono book_obj after_heading intro = 21
   \<and> row_in_between_space mono book_obj after_heading intro = 65
   \<and> Ln \<notin> set (calls_since after_heading intro_row)"
proof -
  have m: "0 \<le> l_margin after_heading" by code_simp
  note r3 = third_level_row_eq
  note r0 = intro_row_eq
  have f3: "first_space mono book_obj (render_title mono after_heading third_level)
              third_level = - (3 / 2)"
    by code_simp
  have f0: "first_space mono book_obj (render_title mono after_heading intro) intro = 65"
    by code_simp
  have g3: "get_x (render_title mono after_heading third_level) = 175 / 2" by code_simp
  have g0: "get_x (render_title mono after_heading intro) = 21" by code_simp
  have l: "l_margin after_heading = 10" "pdf_w after_heading = 100"
    "r_margin after_heading = 10"
    by code_simp+
  have d3: "depth third_level = 3" "page third_level = 0" by (simp_all add: third_level_def)
  have tp: "toc_pages book_obj = 2" by (simp add: book_obj_def)
  have w3: "get_string_width mono (render_title mono after_heading third_level) (str 3) = 2"
    by code_simp
  from line_break_when_negative[OF m, of mono book_obj third_level third_level_row]
       line_break_when_negative[OF m, of mono book_obj intro intro_row]
       m r3 r0 f3 f0 g3 g0 l d3 tp w3
  show ?thesis by simp
qed

lemma row_current_x_cases:
  assumes "0 \<le> l_margin toc"
  shows "row_current_x E self toc item =
           (if first_space E self (render_title E toc item) item < 0
            then l_margin toc + indent_of item
            else get_x (render_title E toc item))"
proof (cases "first_space E self (render_title E toc item) item < 0")
  case True
  have "0 \<le> l_margin (render_title E toc item) + indent_of item"
    using assms by (simp add: indent_of_def level_indent_def)
  from space_for_fill_break(1)[OF True this] True show ?thesis
    by (simp add: row_current_x_def row_space_def)
next
  case False
  from space_for_fill_stay[OF False] False show ?thesis
    by (simp add: row_current_x_def row_space_def)
qed

lemma page_number_cell_in_style:
  "page_number_cell self (in_style toc item) item cx =
     \<lparr>cell_w = pdf_w toc - cx - r_margin toc,
      cell_h = ts_font_size_pt (get_text_style (depth item)) / pdf_k toc * line_spacing,
      cell_text = item_page_number self item,
      new_x = LMARGIN, new_y = NEXT,
      link = Some (''#'' @ link_name item),
      align = Align_R\<rparr>"
  by (simp add: page_number_cell_def font_size_def)

lemma page_number_stage:
  assumes "0 \<le> l_margin toc"
      and "render_toc_item E self toc item = Some toc'"
  shows "row_current_x E self toc item =
           (if first_space E self (render_title E toc item) item < 0
            then l_margin toc + indent_of item
            else get_x (render_title E toc item))
       \<and> (\<exists>earlier. calls_since toc toc' =
             earlier @ [SetX (row_current_x E self toc item),
                        MultiCell \<lparr>cell_w = pdf_w toc - row_current_x E self toc item
                                             - r_margin toc,
                                   cell_h = ts_font_size_pt (get_text_style (depth item))
                                              / pdf_k toc * line_spacing,
                                   cell_text = str (page item + toc_pages self + 1),
                                   new_x = LMARGIN, new_y = NEXT,
                                   link = Some (''#'' @ link_name item),
                                   align = Align_R\<rparr>])
       \<and> (\<exists>t. row_at_page_number E self toc item = Some t
             \<and> pdf_x t = (if 0 \<le> row_current_x E self toc item
                           then row_current_x E self toc item
                           else pdf_w toc + row_current_x E self toc item)
             \<and> pdf_y toc' =
                 p_last (layout E t (page_number_cell self (in_style toc item) item
                                       (row_current_x E self toc item)))
                   + ts_font_size_pt (get_text_style (depth item)) / pdf_k toc * line_spacing)
       \<and> pdf_x toc' = l_margin toc"
proof -
  let ?cx = "row_current_x E self toc item"
  let ?st = "get_text_style (depth item)"
  from render_toc_item_SomeD[OF assms(2)] obtain ib where
    ib: "row_in_between E self toc item = Some ib" and
    toc': "toc' = use_text_style_exit ?st toc
                      (render_page_number E self
                         (render_fill E (fst (row_space E self toc item)) item ?cx
                            (row_in_between_space E self toc item) ib)
                         item ?cx)"
    by blast
  let ?t3 = "render_fill E (fst (row_space E self toc item)) item ?cx
               (row_in_between_space E self toc item) ib"
  have pc: "page_number_cell self ?t3 item ?cx = page_number_cell self (in_style toc item) item ?cx"
    by (rule page_number_cell_cong) simp_all
  have at: "row_at_page_number E self toc item = Some (set_x ?cx ?t3)"
    by (simp add: row_at_page_number_def ib)
  have x_at: "pdf_x (set_x ?cx ?t3) = (if 0 \<le> ?cx then ?cx else pdf_w toc + ?cx)"
    by simp
  have fs: "font_size ?t3 = ts_font_size_pt ?st / pdf_k toc"
    by (simp add: font_size_def)
  have y: "pdf_y toc' =
             p_last (layout E (set_x ?cx ?t3) (page_number_cell self (in_style toc item) item ?cx))
               + ts_font_size_pt ?st / pdf_k toc * line_spacing"
    unfolding toc'
    by (simp add: use_text_style_exit_plain[OF get_text_style_b_margin]
          render_page_number_cursor pc fs)
  have x: "pdf_x toc' = l_margin toc"
    unfolding toc'
    by (simp add: use_text_style_exit_plain[OF get_text_style_b_margin]
          render_page_number_cursor)
  from row_calls_since[OF assms(2)] obtain ib' where
    "calls_since toc toc' =
               ([AddLink (link_name item), UseTextStyle ?st,
                SetX (l_margin toc + indent_of item),
                MultiCell (title_cell (in_style toc item) item)]
                 @ (if first_space E self (render_title E toc item) item < 0
                    then [Ln, SetX (l_margin toc + indent_of item)] else [])
                 @ (if 0 < row_in_between_space E self toc item \<and> 1 < length ib'
                    then [MultiCell (fill_cell (in_style toc item) item ?cx ib')]
                    else []))
                 @ [SetX ?cx, MultiCell (page_number_cell self (in_style toc item) item ?cx)]"
    by auto
  then have tr: "\<exists>earlier. calls_since toc toc' =
             earlier @ [SetX ?cx,
                        MultiCell \<lparr>cell_w = pdf_w toc - ?cx - r_margin toc,
                                   cell_h = ts_font_size_pt ?st / pdf_k toc * line_spacing,
                                   cell_text = str (page item + toc_pages self + 1),
                                   new_x = LMARGIN, new_y = NEXT,
                                   link = Some (''#'' @ link_name item),
                                   align = Align_R\<rparr>]"
    unfolding page_number_cell_in_style item_page_number_def by blast
  from row_current_x_cases[OF assms(1)] tr at x_at y x show ?thesis by blast
qed

text \<open>
  C7, as the code has it. After the dot leader the row calls \<open>set_x(current_x)\<close> and draws
  the page label right-aligned in a cell from \<open>current_x\<close> to the right margin, one and a
  half font sizes high, with \<open>new_x = LMARGIN\<close> and \<open>new_y = NEXT\<close>: the cursor ends at the
  left margin, one cell height below the top of the line on which the label is printed.
  Here \<open>current_x\<close> is the \<open>x\<close> at which the title ended when the first space was zero or
  positive, and the left margin plus 7.5 times the depth after a forced line break.
\<close>

theorem page_number_from_current_x:
  assumes "0 \<le> l_margin toc"
      and "render_toc_item E self toc item = Some toc'"
  shows "row_current_x E self toc item =
           (if first_space E self (render_title E toc item) item < 0
            then l_margin toc + real (depth item) * 7.5
            else get_x (render_title E toc item))
       \<and> (\<exists>earlier. calls_since toc toc' =
             earlier @ [SetX (row_current_x E self toc item),
                        MultiCell \<lparr>cell_w = pdf_w toc - row_current_x E self toc item
                                             - r_margin toc,
                                   cell_h = ts_font_size_pt (get_text_style (depth item))
                                              / pdf_k toc * 1.5,
                                   cell_text = str (page item + toc_pages self + 1),
                                   new_x = LMARGIN, new_y = NEXT,
                                   link = Some (''#'' @ ''dest'' @ str (page item)),
                                   align = Align_R\<rparr>])
       \<and> (\<exists>t. row_at_page_number E self toc item = Some t
             \<and> pdf_x t = (if 0 \<le> row_current_x E self toc item
                           then row_current_x E self toc item
                           else pdf_w toc + row_current_x E self toc item)
             \<and> pdf_y toc' =
                 p_last (layout E t (page_number_cell self (in_style toc item) item
                                       (row_current_x E self toc item)))
                   + ts_font_size_pt (get_text_style (depth item)) / pdf_k toc * 1.5)
       \<and> pdf_x toc' = l_margin toc"
  by (rule page_number_stage[OF assms,
        unfolded indent_of_def level_indent_def line_spacing_def link_name_def])

theorem page_number_from_current_x_witness:
  "0 \<le> l_margin after_heading
   \<and> first_space mono book_obj (render_title mono after_heading third_level) third_level < 0
   \<and> get_x (render_title mono after_heading third_level) = 175 / 2
   \<and> row_current_x mono book_obj after_heading third_level = 65 / 2
   \<and> pdf_x third_level_row = 10
   \<and> \<not> first_space mono book_obj (render_title mono after_heading intro) intro < 0
   \<and> get_x (render_title mono after_heading intro) = 21
   \<and> row_current_x mono book_obj after_heading intro = 21
   \<and> pdf_x intro_row = 10"
proof -
  have m: "0 \<le> l_margin after_heading" by code_simp
  note r3 = third_level_row_eq
  note r0 = intro_row_eq
  have f3: "first_space mono book_obj (render_title mono after_heading third_level)
              third_level < 0"
    by code_simp
  have f0: "\<not> first_space mono book_obj (render_title mono after_heading intro) intro < 0"
    by code_simp
  have g3: "get_x (render_title mono after_heading third_level) = 175 / 2" by code_simp
  have g0: "get_x (render_title mono after_heading intro) = 21" by code_simp
  have l: "l_margin after_heading = 10" by code_simp
  have d3: "depth third_level = 3" by (simp add: third_level_def)
  from page_number_from_current_x[OF m r3] page_number_from_current_x[OF m r0]
       m f3 f0 g3 g0 l d3
  show ?thesis by simp
qed

text \<open>
  C7 as stated fails after a forced line break, in both of its parts. In the row at depth
  3 the title ends at \<open>x = 175/2\<close>, the label does not fit, and the page number is drawn
  from \<open>x = 65/2\<close>, the start of the new line. In the row at depth 10 no dot leader is
  drawn after the line break; the page number is called at \<open>y = 46\<close> on page 1, its cell of
  height 18 goes to the next page, and the cursor ends at \<open>y = 28\<close> on page 2.
\<close>

theorem page_number_x_counterexample:
  "get_x (render_title mono after_heading third_level) = 175 / 2
   \<and> row_trace mono book_obj after_heading third_level =
       Some [AddLink ''dest0'',
             UseTextStyle \<lparr>ts_font_family = ''Helvetica'', ts_font_size_pt = 12,
                            ts_color = None, ts_font_style = [], ts_b_margin = 0\<rparr>,
             SetX (65 / 2),
             MultiCell \<lparr>cell_w = 115 / 2, cell_h = 18,
                        cell_text = ''A third-level heading title'',
                        new_x = END, new_y = LAST, link = Some ''#dest0'', align = Align_J\<rparr>,
             Ln,
             SetX (65 / 2),
             MultiCell \<lparr>cell_w = 115 / 2, cell_h = 18, cell_text = dots 26,
                        new_x = END, new_y = LAST, link = Some ''#dest0'', align = Align_L\<rparr>,
             SetX (65 / 2),
             MultiCell \<lparr>cell_w = 115 / 2, cell_h = 18, cell_text = ''3'',
                        new_x = LMARGIN, new_y = NEXT, link = Some ''#dest0'',
                        align = Align_R\<rparr>]
   \<and> row_trace mono book_obj after_heading tenth_level =
       Some [AddLink ''dest0'',
             UseTextStyle \<lparr>ts_font_family = ''Helvetica'', ts_font_size_pt = 12,
                            ts_color = None, ts_font_style = [], ts_b_margin = 0\<rparr>,
             SetX 85,
             MultiCell \<lparr>cell_w = 5, cell_h = 18, cell_text = ''Z'',
                        new_x = END, new_y = LAST, link = Some ''#dest0'', align = Align_J\<rparr>,
             Ln,
             SetX 85,
             SetX 85,
             MultiCell \<lparr>cell_w = 5, cell_h = 18, cell_text = ''3'',
                        new_x = LMARGIN, new_y = NEXT, link = Some ''#dest0'',
                        align = Align_R\<rparr>]
   \<and> map_option pdf_y (row_at_page_number mono book_obj after_heading tenth_level) = Some 46
   \<and> map_option pdf_page (row_at_page_number mono book_obj after_heading tenth_level) = Some 1
   \<and> pdf_y tenth_level_row = 28
   \<and> pdf_page tenth_level_row = 2"
  by code_simp

lemma render_toc_item_returns:
  assumes "row_in_between E self toc item = Some ib"
  shows "\<exists>toc'. render_toc_item E self toc item = Some toc'"
  using assms
  by (auto simp: render_toc_item_def Let_def row_in_between_def row_space_def
        row_in_between_space_def split: prod.splits)

text \<open>
  C10. Let the string of one fill character have a positive measured width, and let every
  further fill character widen a run of them by at least that width, in the font of the
  row. Then the loop returns for every \<open>in_between_space\<close>: it stops at a run of dots for
  which the condition is false. So \<open>in_between\<close> has a value and \<open>render_toc_item\<close> returns.
\<close>

theorem dot_loop_terminates:
  assumes "0 < row_width E self toc item ''.''"
      and "\<forall>n. row_width E self toc item (dots n) + row_width E self toc item ''.''
                \<le> row_width E self toc item (dots (Suc n))"
  shows "(\<exists>n. fill_loop (row_width E self toc item) (clearance_margin toc) in_between_space []
               = Some (dots n)
             \<and> \<not> row_width E self toc item (dots n) + clearance_margin toc < in_between_space)
       \<and> (\<exists>n. row_in_between E self toc item = Some (dots n))
       \<and> (\<exists>toc'. render_toc_item E self toc item = Some toc')"
proof -
  let ?g = "row_width E self toc item"
  have grow: "?g (dots m) + ?g ''.'' \<le> ?g (dots (Suc m))" for m
    using assms(2) by blast
  have loop: "\<exists>n. fill_loop ?g (clearance_margin toc) sp [] = Some (dots n)
                \<and> \<not> ?g (dots n) + clearance_margin toc < sp" for sp
  proof -
    from fill_loop_stops[of "?g ''.''" ?g, OF assms(1) grow] obtain n where
      n: "fill_loop ?g (clearance_margin toc) sp [] = Some (dots n)" by blast
    from fill_loop_result[OF n] have "\<not> ?g (dots n) + clearance_margin toc < sp" by blast
    with n show ?thesis by blast
  qed
  have w: "get_string_width E (fst (row_space E self toc item)) = ?g"
    by (rule ext) (simp add: row_width_def)
  have c: "clearance_margin (fst (row_space E self toc item)) = clearance_margin toc"
    by (simp add: clearance_margin_def)
  have has_value: "\<exists>n. row_in_between E self toc item = Some (dots n)"
  proof (cases "0 < row_in_between_space E self toc item")
    case True
    from loop[of "row_in_between_space E self toc item"] True show ?thesis
      by (auto simp: row_in_between_def accumulate_fill_def w c)
  next
    case False
    then have "row_in_between E self toc item = Some (dots 0)"
      by (simp add: row_in_between_def accumulate_fill_def)
    then show ?thesis by blast
  qed
  then obtain n where "row_in_between E self toc item = Some (dots n)" by blast
  from render_toc_item_returns[OF this] loop[of in_between_space] has_value
  show ?thesis by blast
qed

theorem dot_loop_terminates_witness:
  "0 < row_width mono book_obj after_heading intro ''.''
   \<and> fill_loop (row_width mono book_obj after_heading intro) (clearance_margin after_heading)
        64 [] \<noteq> None
   \<and> row_in_between mono book_obj after_heading intro \<noteq> None
   \<and> render_toc_item mono book_obj after_heading intro \<noteq> None"
proof -
  have p: "0 < row_width mono book_obj after_heading intro ''.''"
    by (simp add: mono_width)
  have a: "\<forall>n. row_width mono book_obj after_heading intro (dots n)
                  + row_width mono book_obj after_heading intro ''.''
                \<le> row_width mono book_obj after_heading intro (dots (Suc n))"
    by (simp add: mono_width)
  from dot_loop_terminates[OF p a, of 64] p show ?thesis by auto
qed

text \<open>
  C9. In a row, the name given to \<open>add_link\<close> is \<open>dest\<close> followed by the page index of the
  bookmark, and every \<open>multi_cell\<close> of the row (title, dot leader if drawn, page number)
  carries the link \<open>#\<close> followed by that name. \<open>merge_pdfs\<close> calls \<open>add_named_destination\<close>
  once for each bookmark, in order, with the same name and with the page index plus
  \<open>toc_pages\<close>. The name depends on the page index only, so bookmarks on the same page get
  the same name, and the name is then registered once for each of them.
\<close>

theorem link_name_from_page:
  "(render_toc_item E self toc item = Some toc' \<longrightarrow>
        added_links (calls_since toc toc') = [''dest'' @ str (page item)]
      \<and> multi_cells (calls_since toc toc') \<noteq> []
      \<and> (\<forall>c \<in> set (multi_cells (calls_since toc toc')).
            link c = Some (''#'' @ ''dest'' @ str (page item))))
   \<and> named_destinations (merge_pdfs self toc_buffer) =
        map (\<lambda>b. (''dest'' @ str (page b), page b + toc_pages self)) (bookmarks self)
   \<and> length (named_destinations (merge_pdfs self toc_buffer)) = length (bookmarks self)
   \<and> (page b1 = page b2 \<longrightarrow> link_name b1 = link_name b2)"
proof -
  have row: "added_links (calls_since toc toc') = [''dest'' @ str (page item)]
      \<and> multi_cells (calls_since toc toc') \<noteq> []
      \<and> (\<forall>c \<in> set (multi_cells (calls_since toc toc')).
            link c = Some (''#'' @ ''dest'' @ str (page item)))"
    if "render_toc_item E self toc item = Some toc'"
    using row_calls_since[OF that] by (auto simp: link_name_def split: if_splits)
  have dests: "named_destinations (add_destinations self bs wr) =
                 named_destinations wr
                   @ map (\<lambda>b. (''dest'' @ str (page b), page b + toc_pages self)) bs" for bs wr
    by (induction bs arbitrary: wr) (simp_all add: Let_def add_named_destination_def)
  have merged: "named_destinations (merge_pdfs self toc_buffer) =
        map (\<lambda>b. (''dest'' @ str (page b), page b + toc_pages self)) (bookmarks self)"
    by (simp add: merge_pdfs_def Let_def dests)
  have same: "link_name b1 = link_name b2" if "page b1 = page b2"
    using that by (simp add: link_name_def)
  from row merged same show ?thesis by simp
qed

theorem link_name_from_page_witness:
  "added_links (calls_since after_heading chapter_seven_row) = [''dest7'']
   \<and> map link (multi_cells (calls_since after_heading chapter_seven_row)) =
       [Some ''#dest7'', Some ''#dest7'', Some ''#dest7'']
   \<and> named_destinations (merge_pdfs twins_obj chapter_seven_row) =
       [(''dest0'', 2), (''dest0'', 2)]
   \<and> length (named_destinations (merge_pdfs twins_obj chapter_seven_row)) = 2"
proof -
  have r7: "render_toc_item mono twins_obj after_heading chapter_seven = Some chapter_seven_row"
    by code_simp
  have cells: "map link (multi_cells (calls_since after_heading chapter_seven_row)) =
       [Some ''#dest7'', Some ''#dest7'', Some ''#dest7'']"
    by code_simp
  have bms: "map (\<lambda>b. (''dest'' @ str (page b), page b + toc_pages twins_obj))
               (bookmarks twins_obj) = [(''dest0'', 2), (''dest0'', 2)]"
    by code_simp
  have "str (page chapter_seven) = ''7''" by code_simp
  with link_name_from_page[where E = mono and self = twins_obj and toc = after_heading
         and item = chapter_seven and toc' = chapter_seven_row
         and toc_buffer = chapter_seven_row and ?b1.0 = intro and ?b2.0 = intro] r7 cells bms
  show ?thesis by simp
qed

section \<open>The whole run\<close>

subsection \<open>Bookmarks\<close>

lemma sorted_slice_from:
  "sorted (map page xs) \<Longrightarrow> sorted (map page (slice_from xs k))"
  by (simp add: slice_from_def sorted_wrt_drop drop_map[symmetric] del: drop_map)

lemma init_bookmarks:
  assumes "init E rd k = Some r"
  shows "bookmarks (self_of r) = load_bookmarks rd k"
  using assms
  by (auto simp: init_def Let_def split: option.splits prod.splits if_splits)

text \<open>
  C5. When the flattened list is sorted by page and \<open>skip_bookmarks\<close> is not negative, the
  bookmarks kept are the flattened list without its first \<open>skip_bookmarks\<close> entries, each
  entry unchanged. In every case the bookmarks kept are sorted by page and are the entries
  of the cut list, and they are the bookmarks of the object when the table is rendered.
\<close>

theorem bookmarks_cut_then_sorted:
  "(0 \<le> skip_bookmarks \<and> sorted (map page (extract_bookmarks rd (outline rd) 0)) \<longrightarrow>
        load_bookmarks rd skip_bookmarks =
          drop (nat skip_bookmarks) (extract_bookmarks rd (outline rd) 0))
   \<and> sorted (map page (load_bookmarks rd skip_bookmarks))
   \<and> set (load_bookmarks rd skip_bookmarks) =
       set (slice_from (extract_bookmarks rd (outline rd) 0) skip_bookmarks)
   \<and> length (load_bookmarks rd skip_bookmarks) =
       length (slice_from (extract_bookmarks rd (outline rd) 0) skip_bookmarks)
   \<and> (init E rd skip_bookmarks = Some r \<longrightarrow>
        bookmarks (self_of r) = load_bookmarks rd skip_bookmarks)"
proof -
  let ?flat = "extract_bookmarks rd (outline rd) 0"
  have cut: "load_bookmarks rd skip_bookmarks = drop (nat skip_bookmarks) ?flat"
    if "0 \<le> skip_bookmarks" and "sorted (map page ?flat)"
  proof -
    from that(2) have "sorted (map page (slice_from ?flat skip_bookmarks))"
      by (rule sorted_slice_from)
    then have "sort_key page (slice_from ?flat skip_bookmarks) = slice_from ?flat skip_bookmarks"
      by (rule sort_key_id_if_sorted)
    with that(1) show ?thesis by (simp add: load_bookmarks_def Let_def slice_from_def)
  qed
  have srt: "sorted (map page (load_bookmarks rd skip_bookmarks))"
    by (simp add: load_bookmarks_def Let_def)
  have same: "set (load_bookmarks rd skip_bookmarks) = set (slice_from ?flat skip_bookmarks)"
    "length (load_bookmarks rd skip_bookmarks) = length (slice_from ?flat skip_bookmarks)"
    by (simp_all add: load_bookmarks_def Let_def)
  from cut srt same init_bookmarks show ?thesis by blast
qed

theorem bookmarks_cut_then_sorted_witness:
  "(0::int) \<le> 1
   \<and> sorted (map page (extract_bookmarks book (outline book) 0))
   \<and> load_bookmarks book 1 =
       [\<lparr>depth = 0, title = ''Chapter seven with a rather long name'', page = 7\<rparr>,
        \<lparr>depth = 0, title = ''End'', page = 9\<rparr>]
   \<and> bookmarks (self_of book_run) = load_bookmarks book 0"
proof -
  have s: "sorted (map page (extract_bookmarks book (outline book) 0))" by code_simp
  have d: "drop (nat 1) (extract_bookmarks book (outline book) 0) =
       [\<lparr>depth = 0, title = ''Chapter seven with a rather long name'', page = 7\<rparr>,
        \<lparr>depth = 0, title = ''End'', page = 9\<rparr>]"
    by code_simp
  note i = book_run_eq
  from bookmarks_cut_then_sorted[of 1 book mono book_run]
       bookmarks_cut_then_sorted[of 0 book mono book_run] s d i
  show ?thesis by simp
qed

subsection \<open>The page labels of a rendered table\<close>

lemma heading_calls:
  "calls (render_heading E (add_page (FPDF E))) =
     [AddPage, UseTextStyle (style_named ''title''), SetTitle ''Table of Contents'',
      Cell heading_cell]"
  by (simp add: render_heading_def Let_def add_page_def FPDF_def set_title_def cell_call_def
        place_cell_def)

lemma row_page_labels:
  assumes "render_toc_item E self toc item = Some toc'"
  shows "map cell_text (cells_aligned Align_R (calls toc')) =
           map cell_text (cells_aligned Align_R (calls toc)) @ [item_page_number self item]"
proof -
  from render_toc_item_calls[OF assms] obtain ib where
    "calls toc' =
               calls toc @ [AddLink (link_name item), UseTextStyle (get_text_style (depth item)),
                            SetX (l_margin toc + indent_of item),
                            MultiCell (title_cell (in_style toc item) item)]
                 @ (if first_space E self (render_title E toc item) item < 0
                    then [Ln, SetX (l_margin toc + indent_of item)] else [])
                 @ (if 0 < row_in_between_space E self toc item \<and> 1 < length ib
                    then [MultiCell (fill_cell (in_style toc item) item
                                       (row_current_x E self toc item) ib)]
                    else [])
                 @ [SetX (row_current_x E self toc item),
                    MultiCell (page_number_cell self (in_style toc item) item
                                 (row_current_x E self toc item))]"
    by blast
  then show ?thesis by (simp add: cells_aligned_def)
qed

lemma rows_page_labels:
  "render_items E self bs toc = Some toc' \<Longrightarrow>
     map cell_text (cells_aligned Align_R (calls toc')) =
       map cell_text (cells_aligned Align_R (calls toc)) @ map (item_page_number self) bs"
proof (induction bs arbitrary: toc)
  case Nil
  then show ?case by simp
next
  case (Cons b bs)
  from Cons.prems obtain mid where
    row: "render_toc_item E self toc b = Some mid" and
    rest: "render_items E self bs mid = Some toc'"
    by (auto split: option.splits)
  from Cons.IH[OF rest] row_page_labels[OF row] show ?case by simp
qed

lemma create_toc_page_labels:
  assumes "create_toc E self = Some (toc, n)"
  shows "map cell_text (cells_aligned Align_R (calls toc)) =
           map (\<lambda>b. str (page b + toc_pages self + 1)) (bookmarks self)"
    and "n = page_no toc"
proof -
  from assms have
    rows: "render_items E self (bookmarks self) (render_heading E (add_page (FPDF E))) = Some toc"
    and n: "n = page_no toc"
    by (auto simp: create_toc_def Let_def split: option.splits)
  from n show "n = page_no toc" .
  have ipn: "item_page_number self = (\<lambda>b. str (page b + toc_pages self + 1))"
    by (rule ext) (simp add: item_page_number_def)
  from rows_page_labels[OF rows] show
    "map cell_text (cells_aligned Align_R (calls toc)) =
       map (\<lambda>b. str (page b + toc_pages self + 1)) (bookmarks self)"
    by (simp add: heading_calls cells_aligned_def ipn)
qed

text \<open>
  C3. A run that returns has first called \<open>create_toc\<close> with \<open>toc_pages = 1\<close>. When that
  call reports one page, it is the only call and its document is the final one. When it
  reports another number, \<open>toc_pages\<close> becomes that number and \<open>create_toc\<close> is called once
  more; the document of the second call is the final one. So there are at most two calls.
  In the final document the page labels are, row by row, \<open>str\<close> of the page index of the
  bookmark plus the final \<open>toc_pages\<close> plus 1.
\<close>

theorem rendered_once_or_twice:
  assumes "init E rd skip_bookmarks = Some r"
  shows "\<exists>toc1 n1.
           create_toc E \<lparr>reader_of = rd, bookmarks = load_bookmarks rd skip_bookmarks,
                          toc_pages = 1\<rparr> = Some (toc1, n1)
         \<and> (n1 = 1 \<longrightarrow>
               renders r = [(1, 1)] \<and> toc_pages (self_of r) = 1 \<and> toc_pdf r = toc1)
         \<and> (n1 \<noteq> 1 \<longrightarrow>
               toc_pages (self_of r) = n1
             \<and> (\<exists>n2. renders r = [(1, n1), (n1, n2)]
                     \<and> create_toc E (self_of r) = Some (toc_pdf r, n2)))
         \<and> length (renders r) \<le> 2
         \<and> bookmarks (self_of r) = load_bookmarks rd skip_bookmarks
         \<and> map cell_text (cells_aligned Align_R (calls (toc_pdf r))) =
             map (\<lambda>b. str (page b + toc_pages (self_of r) + 1)) (bookmarks (self_of r))"
proof -
  let ?self = "\<lparr>reader_of = rd, bookmarks = load_bookmarks rd skip_bookmarks, toc_pages = 1\<rparr>"
  from assms obtain toc1 n1 where first: "create_toc E ?self = Some (toc1, n1)"
    by (auto simp: init_def Let_def split: option.splits)
  show ?thesis
  proof (cases "n1 = 1")
    case True
    with assms first have r: "r = \<lparr>self_of = ?self, toc_pdf = toc1, renders = [(1, n1)],
                                    written = merge_pdfs ?self toc1\<rparr>"
      by (simp add: init_def Let_def)
    from create_toc_page_labels(1)[OF first] r
    have "map cell_text (cells_aligned Align_R (calls (toc_pdf r))) =
             map (\<lambda>b. str (page b + toc_pages (self_of r) + 1)) (bookmarks (self_of r))"
      by simp
    with True first r show ?thesis by simp
  next
    case False
    let ?self2 = "?self\<lparr>toc_pages := n1\<rparr>"
    from assms first False obtain toc2 n2 where
      second: "create_toc E ?self2 = Some (toc2, n2)" and
      r: "r = \<lparr>self_of = ?self2, toc_pdf = toc2, renders = [(1, n1), (n1, n2)],
               written = merge_pdfs ?self2 toc2\<rparr>"
      by (auto simp: init_def Let_def split: option.splits)
    from create_toc_page_labels(1)[OF second] r
    have "map cell_text (cells_aligned Align_R (calls (toc_pdf r))) =
             map (\<lambda>b. str (page b + toc_pages (self_of r) + 1)) (bookmarks (self_of r))"
      by simp
    with False first second r show ?thesis by simp
  qed
qed

theorem rendered_once_or_twice_witness:
  "renders book_run = [(1, 2), (2, 3)]
   \<and> toc_pages (self_of book_run) = 2
   \<and> map cell_text (cells_aligned Align_R (calls (toc_pdf book_run))) = [''3'', ''10'', ''12'']"
proof -
  note i = book_run_eq
  have rn: "renders book_run = [(1, 2), (2, 3)]" by code_simp
  have labels: "map (\<lambda>b. str (page b + 2 + 1)) (load_bookmarks book 0) = [''3'', ''10'', ''12'']"
    by code_simp
  from rendered_once_or_twice[OF i] rn labels show ?thesis by auto
qed

subsection \<open>The written file\<close>

lemma add_destinations_pages: "pages (add_destinations self bs wr) = pages wr"
  by (induction bs arbitrary: wr) (simp_all add: Let_def add_named_destination_def)

lemma merge_pdfs_pages:
  "pages (merge_pdfs self toc_buffer) =
     map TocPage [1 ..< Suc (pdf_page toc_buffer)] @ map SourcePage [0 ..< num_pages (reader_of self)]"
  by (simp add: merge_pdfs_def Let_def add_destinations_pages toc_reader_pages_def
        reader_pages_def)

text \<open>
  When the final document has as many pages as \<open>toc_pages\<close> says, the destination of a
  bookmark on a page of the source points to that page.
\<close>

lemma destination_on_target:
  assumes "int (pdf_page toc_buffer) = toc_pages self"
      and "0 \<le> page b" and "nat (page b) < num_pages (reader_of self)"
  shows "page_at (merge_pdfs self toc_buffer) (page b + toc_pages self)
           = Some (SourcePage (nat (page b)))"
proof -
  let ?n = "pdf_page toc_buffer"
  have len: "length (map TocPage [1 ..< Suc ?n]) = ?n" by simp
  from assms have idx: "nat (page b + toc_pages self) = ?n + nat (page b)"
    by (simp add: nat_add_distrib)
  have "(map TocPage [1 ..< Suc ?n] @ map SourcePage [0 ..< num_pages (reader_of self)])
          ! (?n + nat (page b)) = SourcePage (nat (page b))"
    using assms(3) by (simp add: nth_append)
  with assms idx show ?thesis
    by (simp add: page_at_def merge_pdfs_pages)
qed

lemma book_run_parts:
  "map_option (\<lambda>r. (renders r, toc_pages (self_of r), pdf_page (toc_pdf r), pages (written r),
                      named_destinations (written r), destination_targets (written r)))
     (init mono book 0) =
   Some ([(1, 2), (2, 3)], 2, 3,
         [TocPage 1, TocPage 2, TocPage 3,
          SourcePage 0, SourcePage 1, SourcePage 2, SourcePage 3, SourcePage 4,
          SourcePage 5, SourcePage 6, SourcePage 7, SourcePage 8, SourcePage 9],
         [(''dest0'', 2), (''dest7'', 9), (''dest9'', 11)],
         [(''dest0'', Some (TocPage 3)), (''dest7'', Some (SourcePage 6)),
          (''dest9'', Some (SourcePage 8))])"
  by code_simp

text \<open>
  C4 on \<open>book\<close>. The first pass takes two pages, so \<open>toc_pages\<close> becomes 2. In the second
  pass the label of page 7 grows from \<open>9\<close> to \<open>10\<close>, its row breaks, and the table takes
  three pages. The written file starts with these three pages, but the destinations are
  shifted by 2: \<open>dest0\<close> points to the last page of the table, \<open>dest7\<close> and \<open>dest9\<close> to the
  pages 6 and 8 of the source.
\<close>

theorem book_destinations_one_page_short:
  "renders book_run = [(1, 2), (2, 3)]
   \<and> toc_pages (self_of book_run) = 2
   \<and> pdf_page (toc_pdf book_run) = 3
   \<and> pages (written book_run) =
       [TocPage 1, TocPage 2, TocPage 3,
        SourcePage 0, SourcePage 1, SourcePage 2, SourcePage 3, SourcePage 4,
        SourcePage 5, SourcePage 6, SourcePage 7, SourcePage 8, SourcePage 9]
   \<and> named_destinations (written book_run) = [(''dest0'', 2), (''dest7'', 9), (''dest9'', 11)]
   \<and> destination_targets (written book_run) =
       [(''dest0'', Some (TocPage 3)), (''dest7'', Some (SourcePage 6)),
        (''dest9'', Some (SourcePage 8))]"
  using book_run_parts by (simp add: book_run_eq)

end
